theory Spec2Isabelle
  imports Main
begin

section \<open>JavaScript values used by both layers\<close>

text \<open>
  Every failure in the source is a plain \<^verbatim>\<open>Error\<close> object (or an error object of the
  SDK or of the browser); the code reads only its \<^verbatim>\<open>name\<close> and \<^verbatim>\<open>message\<close>.
\<close>

record js_error =
  name :: string
  message :: string

text \<open>\<^verbatim>\<open>new Error(msg)\<close>: the name of a plain error is \<^verbatim>\<open>Error\<close>.\<close>

definition Error :: "string \<Rightarrow> js_error" where
  "Error msg = \<lparr>name = ''Error'', message = msg\<rparr>"

text \<open>
  A string argument that may be missing is a \<open>string option\<close>; \<open>None\<close> is
  \<^verbatim>\<open>undefined\<close>. Truthiness of such a value, as \<^verbatim>\<open>!x\<close>, \<^verbatim>\<open>x || y\<close> and
  \<^verbatim>\<open>if (x)\<close> test it: a string is truthy unless it is empty.
\<close>

definition truthy :: "string option \<Rightarrow> bool" where
  "truthy x = (case x of None \<Rightarrow> False | Some v \<Rightarrow> v \<noteq> [])"

text \<open>A missing string inside a template literal prints as \<^verbatim>\<open>undefined\<close>.\<close>

definition str :: "string option \<Rightarrow> string" where
  "str x = (case x of None \<Rightarrow> ''undefined'' | Some v \<Rightarrow> v)"

text \<open>\<^verbatim>\<open>s.includes(t)\<close>: \<open>t\<close> occurs in \<open>s\<close> as a contiguous substring.\<close>

fun starts_with :: "string \<Rightarrow> string \<Rightarrow> bool" where
  "starts_with s [] = True"
| "starts_with [] (c # t) = False"
| "starts_with (d # s) (c # t) = (d = c \<and> starts_with s t)"

fun includes_str :: "string \<Rightarrow> string \<Rightarrow> bool" where
  "includes_str [] t = (t = [])"
| "includes_str (d # s) t = (starts_with (d # s) t \<or> includes_str s t)"

text \<open>\<^verbatim>\<open>n.toString()\<close> of a non-negative integer: its decimal digits.\<close>

definition digit :: "nat \<Rightarrow> char" where
  "digit d = ''0123456789'' ! d"

fun toString :: "nat \<Rightarrow> string" where
  "toString n = (if n < 10 then [digit n] else toString (n div 10) @ [digit (n mod 10)])"

declare toString.simps [simp del]

text \<open>A value that is either \<^verbatim>\<open>null\<close> or present.\<close>

datatype 'a nullable = Null | Value 'a

section \<open>The storage facade\<close>

subsection \<open>Commands, outputs and the world outside\<close>

type_synonym metadata = "string \<rightharpoonup> string"

record put_object_input =
  Bucket :: string
  Key :: "string option"
  Body :: "nat list option"
  ContentType :: "string option"
  CacheControl :: "string option"
  Metadata :: "metadata option"
  ServerSideEncryption :: "string option"
  StorageClass :: "string option"

record get_object_input =
  GetBucket :: string
  GetKey :: "string option"
  Range :: "string option"
  IfNoneMatch :: "string option"
  IfModifiedSince :: "string option"
  ResponseCacheControl :: "string option"
  ResponseContentType :: "string option"

text \<open>
  The inputs of the two commands with many fields; a field the facade leaves out is
  \<open>None\<close>. The commands of the SDK that the facade builds follow. \<open>DeleteObjectsCommand b ks q\<close> is
  \<^verbatim>\<open>{Bucket: b, Delete: {Objects: ks.map(key => ({Key: key})), Quiet: q}}\<close>.
\<close>

datatype command =
    PutObjectCommand put_object_input
  | GetObjectCommand get_object_input
  | DeleteObjectCommand string "string option"
  | DeleteObjectsCommand string "string list" bool
  | HeadObjectCommand string "string option"

record delete_error =
  ErrKey :: string
  ErrCode :: string

text \<open>
  What \<^verbatim>\<open>r2Client.send\<close> resolves to. Only the fields the facade reads are named;
  a field that is \<^verbatim>\<open>undefined\<close> in the output is \<open>None\<close>.
\<close>

record sdk_output =
  ContentLength :: "int option"
  Deleted :: "string list option"
  Errors :: "delete_error list option"
  ETag :: "string option"

text \<open>
  The state a call threads: the requests sent to the storage service so far, the calls
  made to the URL signer so far, and how many times the clock has been read.
\<close>

record state =
  sent :: "command list"
  signed :: "(command \<times> int) list"
  ticks :: nat

text \<open>
  Everything outside the module is a parameter: the configured bucket name, the storage
  service (its answer to a request may depend on all that happened before), the clock
  (\<open>clock k\<close> is the \<open>k\<close>-th reading of \<^verbatim>\<open>Date.now()\<close>, \<open>iso\<close> is
  \<^verbatim>\<open>toISOString\<close>), and the dynamically imported signer, whose import may fail.
\<close>

record world =
  BUCKET_NAME :: string
  send :: "state \<Rightarrow> command \<Rightarrow> js_error + sdk_output"
  clock :: "nat \<Rightarrow> int"
  iso :: "int \<Rightarrow> string"
  presigner :: "js_error + (state \<Rightarrow> command \<Rightarrow> int \<Rightarrow> js_error + string)"

text \<open>
  Sending a request records it and yields the service's answer. Messages written to the
  console are left out: they change neither what a call returns nor what it sends.
\<close>

definition r2Client_send :: "world \<Rightarrow> command \<Rightarrow> state \<Rightarrow> (js_error + sdk_output) \<times> state" where
  "r2Client_send w c s = (send w s c, s\<lparr>sent := sent s @ [c]\<rparr>)"

definition Date_now :: "world \<Rightarrow> state \<Rightarrow> int \<times> state" where
  "Date_now w s = (clock w (ticks s), s\<lparr>ticks := Suc (ticks s)\<rparr>)"

text \<open>\<^verbatim>\<open>new Date().toISOString()\<close>\<close>

definition isoNow :: "world \<Rightarrow> state \<Rightarrow> string \<times> state" where
  "isoNow w s = (case Date_now w s of (t, s') \<Rightarrow> (iso w t, s'))"

text \<open>
  \<^verbatim>\<open>new Date(t).toISOString()\<close> for a computed time \<open>t\<close>: a time more than
  8.64e15 milliseconds away from the epoch is no valid date, and \<^verbatim>\<open>toISOString\<close>
  throws a \<^verbatim>\<open>RangeError\<close> for it. (The present time, read by \<open>isoNow\<close>, is always
  a valid date. Numbers are integers here; the doubles of the code agree with them on
  clock readings and on every product and sum below \<open>2^53\<close>.)
\<close>

definition max_time :: int where
  "max_time = 8640000000000000"

definition toISOString :: "world \<Rightarrow> int \<Rightarrow> js_error + string" where
  "toISOString w t =
     (if - max_time \<le> t \<and> t \<le> max_time then Inr (iso w t)
      else Inl \<lparr>name = ''RangeError'', message = ''Invalid time value''\<rparr>)"

text \<open>
  The \<^verbatim>\<open>catch\<close> block shared by most operations: a failure of the body is raised
  again as a plain error whose message is prefixed with the operation's name.
\<close>

definition rethrow :: "string \<Rightarrow> (js_error + 'a) \<times> state \<Rightarrow> (js_error + 'a) \<times> state" where
  "rethrow pre r =
     (case r of
        (Inl error, s) \<Rightarrow> (Inl (Error (pre @ message error)), s)
      | (Inr v, s) \<Rightarrow> (Inr v, s))"

subsection \<open>deleteFiles\<close>

definition maxBatchSize :: nat where
  "maxBatchSize = 1000"

text \<open>\<^verbatim>\<open>xs.slice(a, b)\<close> for \<open>0 \<le> a \<le> b\<close>.\<close>

definition slice :: "'a list \<Rightarrow> nat \<Rightarrow> nat \<Rightarrow> 'a list" where
  "slice xs a b = take (b - a) (drop a xs)"

record batch_delete_result =
  results :: "sdk_output list"
  deletedCount :: nat
  errors :: "delete_error list"
  deletedAt :: string

text \<open>
  The \<^verbatim>\<open>for\<close> loop of \<^verbatim>\<open>deleteFiles\<close>: \<open>i\<close> is the loop index, \<open>rs\<close> the array
  \<^verbatim>\<open>results\<close>. A request that rejects leaves the loop at once.
\<close>

function deleteFiles_loop ::
  "world \<Rightarrow> string list \<Rightarrow> nat \<Rightarrow> sdk_output list \<Rightarrow> state \<Rightarrow> (js_error + sdk_output list) \<times> state" where
  "deleteFiles_loop w keys i rs s =
     (if i < length keys then
        (case r2Client_send w (DeleteObjectsCommand (BUCKET_NAME w) (slice keys i (i + maxBatchSize)) False) s of
           (Inl e, s') \<Rightarrow> (Inl e, s')
         | (Inr result, s') \<Rightarrow> deleteFiles_loop w keys (i + maxBatchSize) (rs @ [result]) s')
      else (Inr rs, s))"
  by pat_completeness auto
termination
  by (relation "measure (\<lambda>(w, keys, i, rs, s). length keys - i)") (auto simp: maxBatchSize_def)

declare deleteFiles_loop.simps [simp del]

text \<open>\<^verbatim>\<open>result.Deleted?.length || 0\<close>\<close>

definition deletedLength :: "sdk_output \<Rightarrow> nat" where
  "deletedLength result = (case Deleted result of None \<Rightarrow> 0 | Some ds \<Rightarrow> length ds)"

text \<open>\<^verbatim>\<open>result.Errors || []\<close>\<close>

definition errorsOf :: "sdk_output \<Rightarrow> delete_error list" where
  "errorsOf result = (case Errors result of None \<Rightarrow> [] | Some es \<Rightarrow> es)"

text \<open>
  \<open>keys\<close> is \<open>None\<close> when the argument is missing or is not an array.
\<close>

definition deleteFiles ::
  "world \<Rightarrow> string list option \<Rightarrow> state \<Rightarrow> (js_error + batch_delete_result) \<times> state" where
  "deleteFiles w keys s =
     rethrow ''Batch delete failed: ''
       (case keys of
          None \<Rightarrow> (Inl (Error ''Keys array is required and must not be empty''), s)
        | Some ks \<Rightarrow>
            if length ks = 0 then (Inl (Error ''Keys array is required and must not be empty''), s)
            else
              (case deleteFiles_loop w ks 0 [] s of
                 (Inl e, s') \<Rightarrow> (Inl e, s')
               | (Inr rs, s') \<Rightarrow>
                   (case isoNow w s' of
                      (t, s'') \<Rightarrow>
                        (Inr \<lparr>results = rs,
                              deletedCount = foldl (\<lambda>acc result. acc + deletedLength result) 0 rs,
                              errors = foldl (\<lambda>acc result. acc @ errorsOf result) [] rs,
                              deletedAt = t\<rparr>, s''))))"

subsection \<open>uploadFile\<close>

record upload_options =
  metadata :: "metadata option"
  cacheControl :: "string option"
  storageClass :: "string option"
  serverSideEncryption :: "string option"

record upload_result =
  up_output :: sdk_output
  fileSize :: nat
  up_key :: "string option"
  contentType :: "string option"
  uploadedAt :: string

text \<open>A destructuring default: \<^verbatim>\<open>const { x = d } = options\<close>.\<close>

definition with_default :: "'a option \<Rightarrow> 'a \<Rightarrow> 'a" where
  "with_default x d = (case x of None \<Rightarrow> d | Some v \<Rightarrow> v)"

text \<open>
  \<^verbatim>\<open>defaultMetadata\<close>: the three generated entries, then the spread of the caller's
  metadata, whose entries replace earlier ones of the same name.
\<close>

definition defaultMetadata :: "string \<Rightarrow> nat list \<Rightarrow> metadata \<Rightarrow> metadata" where
  "defaultMetadata now fileBuffer md =
     [''uploaded-at'' \<mapsto> now,
      ''file-size'' \<mapsto> toString (length fileBuffer),
      ''upload-source'' \<mapsto> ''web-portal''] ++ md"

text \<open>
  The test \<^verbatim>\<open>!key || !fileBuffer\<close> is written as two tests that raise the same
  error; a buffer object is truthy whatever its length, so only a missing buffer fails it.
\<close>

definition uploadFile ::
  "world \<Rightarrow> string option \<Rightarrow> nat list option \<Rightarrow> string option \<Rightarrow> upload_options \<Rightarrow> state
     \<Rightarrow> (js_error + upload_result) \<times> state" where
  "uploadFile w key fileBuffer ctype options s =
     rethrow ''Upload failed: ''
       (case fileBuffer of
          None \<Rightarrow> (Inl (Error ''Key and file buffer are required''), s)
        | Some buf \<Rightarrow>
            if \<not> truthy key then (Inl (Error ''Key and file buffer are required''), s)
            else
              (case isoNow w s of
                 (now, s1) \<Rightarrow>
                   (case r2Client_send w
                           (PutObjectCommand
                              \<lparr>Bucket = BUCKET_NAME w,
                               Key = key,
                               Body = Some buf,
                               ContentType = ctype,
                               CacheControl = Some (with_default (cacheControl options) ''public, max-age=31536000''),
                               Metadata = Some (defaultMetadata now buf (with_default (metadata options) Map.empty)),
                               ServerSideEncryption = Some (with_default (serverSideEncryption options) ''AES256''),
                               StorageClass = Some (with_default (storageClass options) ''STANDARD'')\<rparr>) s1 of
                      (Inl e, s2) \<Rightarrow> (Inl e, s2)
                    | (Inr result, s2) \<Rightarrow>
                        (case isoNow w s2 of
                           (t, s3) \<Rightarrow>
                             (Inr \<lparr>up_output = result, fileSize = length buf, up_key = key,
                                   contentType = ctype, uploadedAt = t\<rparr>, s3)))))"

subsection \<open>downloadFile\<close>

record download_options =
  range :: "string option"
  ifNoneMatch :: "string option"
  ifModifiedSince :: "string option"
  responseCacheControl :: "string option"
  responseContentType :: "string option"

record download_result =
  dl_output :: sdk_output
  dl_key :: "string option"
  downloadedAt :: string
  downloadTime :: int

text \<open>\<^verbatim>\<open>...(x && { Field: x })\<close>: the field is set only when \<open>x\<close> is truthy.\<close>

definition when_set :: "string option \<Rightarrow> string option" where
  "when_set x = (if truthy x then x else None)"

definition downloadFile ::
  "world \<Rightarrow> string option \<Rightarrow> download_options \<Rightarrow> state \<Rightarrow> (js_error + download_result) \<times> state" where
  "downloadFile w key options s =
     (case
        (if \<not> truthy key then (Inl (Error ''Key is required''), s)
         else
           (case Date_now w s of
              (startTime, s1) \<Rightarrow>
                (case r2Client_send w
                        (GetObjectCommand
                           \<lparr>GetBucket = BUCKET_NAME w,
                            GetKey = key,
                            Range = when_set (range options),
                            IfNoneMatch = when_set (ifNoneMatch options),
                            IfModifiedSince = when_set (ifModifiedSince options),
                            ResponseCacheControl = when_set (responseCacheControl options),
                            ResponseContentType = when_set (responseContentType options)\<rparr>) s1 of
                   (Inl e, s2) \<Rightarrow> (Inl e, s2)
                 | (Inr result, s2) \<Rightarrow>
                     (case Date_now w s2 of
                        (endTime, s3) \<Rightarrow>
                          (case isoNow w s3 of
                             (t, s4) \<Rightarrow>
                               (Inr \<lparr>dl_output = result, dl_key = key, downloadedAt = t,
                                     downloadTime = endTime - startTime\<rparr>, s4))))))
      of
        (Inl error, s') \<Rightarrow>
          if name error = ''NoSuchKey'' then (Inl (Error (''File not found: '' @ str key)), s')
          else if name error = ''AccessDenied'' then (Inl (Error (''Access denied for file: '' @ str key)), s')
          else (Inl (Error (''Download failed: '' @ message error)), s')
      | (Inr v, s') \<Rightarrow> (Inr v, s'))"

subsection \<open>deleteFile\<close>

record delete_result =
  del_output :: sdk_output
  del_key :: "string option"
  del_deletedAt :: string

definition deleteFile ::
  "world \<Rightarrow> string option \<Rightarrow> state \<Rightarrow> (js_error + delete_result) \<times> state" where
  "deleteFile w key s =
     rethrow ''Delete failed: ''
       (if \<not> truthy key then (Inl (Error ''Key is required''), s)
        else
          (case r2Client_send w (DeleteObjectCommand (BUCKET_NAME w) key) s of
             (Inl e, s1) \<Rightarrow> (Inl e, s1)
           | (Inr result, s1) \<Rightarrow>
               (case isoNow w s1 of
                  (t, s2) \<Rightarrow> (Inr \<lparr>del_output = result, del_key = key, del_deletedAt = t\<rparr>, s2))))"

subsection \<open>getFileMetadata, fileExists, getFileSize\<close>

text \<open>
  The object \<^verbatim>\<open>getFileMetadata\<close> resolves to: the spread of the service's output
  (missing when the object was not found), then the key, the flag and the time.
\<close>

record file_metadata =
  md_output :: "sdk_output option"
  md_key :: "string option"
  exists :: bool
  queriedAt :: string

definition getFileMetadata ::
  "world \<Rightarrow> string option \<Rightarrow> state \<Rightarrow> (js_error + file_metadata) \<times> state" where
  "getFileMetadata w key s =
     (case
        (if \<not> truthy key then (Inl (Error ''Key is required''), s)
         else
           (case r2Client_send w (HeadObjectCommand (BUCKET_NAME w) key) s of
              (Inl e, s1) \<Rightarrow> (Inl e, s1)
            | (Inr result, s1) \<Rightarrow>
                (case isoNow w s1 of
                   (t, s2) \<Rightarrow>
                     (Inr \<lparr>md_output = Some result, md_key = key, exists = True, queriedAt = t\<rparr>, s2))))
      of
        (Inl error, s') \<Rightarrow>
          if name error = ''NotFound'' \<or> name error = ''NoSuchKey'' then
            (case isoNow w s' of
               (t, s'') \<Rightarrow> (Inr \<lparr>md_output = None, md_key = key, exists = False, queriedAt = t\<rparr>, s''))
          else (Inl (Error (''Get metadata failed: '' @ message error)), s')
      | (Inr v, s') \<Rightarrow> (Inr v, s'))"

definition fileExists :: "world \<Rightarrow> string option \<Rightarrow> state \<Rightarrow> bool \<times> state" where
  "fileExists w key s =
     (case getFileMetadata w key s of
        (Inl error, s') \<Rightarrow> (False, s')
      | (Inr md, s') \<Rightarrow> (exists md, s'))"

text \<open>
  \<^verbatim>\<open>metadata.ContentLength\<close>: the field of the spread output, \<^verbatim>\<open>undefined\<close>
  (\<open>None\<close>) when the output has none.
\<close>

definition md_ContentLength :: "file_metadata \<Rightarrow> int option" where
  "md_ContentLength md = (case md_output md of None \<Rightarrow> None | Some result \<Rightarrow> ContentLength result)"

definition getFileSize :: "world \<Rightarrow> string option \<Rightarrow> state \<Rightarrow> int option nullable \<times> state" where
  "getFileSize w key s =
     (case getFileMetadata w key s of
        (Inl error, s') \<Rightarrow> (Null, s')
      | (Inr md, s') \<Rightarrow> (if exists md then Value (md_ContentLength md) else Null, s'))"

subsection \<open>generateSignedUrl\<close>

record signed_url_result =
  url :: string
  su_key :: "string option"
  operation :: string
  expiresIn :: int
  expiresAt :: string
  generatedAt :: string

text \<open>\<^verbatim>\<open>new GetObjectCommand({ Bucket, Key })\<close> and \<^verbatim>\<open>new PutObjectCommand({ Bucket, Key })\<close>\<close>

definition bare_get :: "string \<Rightarrow> string option \<Rightarrow> command" where
  "bare_get b k =
     GetObjectCommand \<lparr>GetBucket = b, GetKey = k, Range = None, IfNoneMatch = None,
       IfModifiedSince = None, ResponseCacheControl = None, ResponseContentType = None\<rparr>"

definition bare_put :: "string \<Rightarrow> string option \<Rightarrow> command" where
  "bare_put b k =
     PutObjectCommand \<lparr>Bucket = b, Key = k, Body = None, ContentType = None, CacheControl = None,
       Metadata = None, ServerSideEncryption = None, StorageClass = None\<rparr>"

text \<open>The \<^verbatim>\<open>switch\<close>: the command for an operation, or the error of the default branch.\<close>

definition command_for :: "world \<Rightarrow> string option \<Rightarrow> string \<Rightarrow> js_error + command" where
  "command_for w key opn =
     (if opn = ''getObject'' then Inr (bare_get (BUCKET_NAME w) key)
      else if opn = ''putObject'' then Inr (bare_put (BUCKET_NAME w) key)
      else Inl (Error (''Unsupported operation: '' @ opn)))"

text \<open>
  \<open>opn\<close> and \<open>expires\<close> are \<open>None\<close> when the argument is left out; the defaults are
  \<^verbatim>\<open>'getObject'\<close> and \<^verbatim>\<open>3600\<close>. The result object is built field by field:
  the expiry time is computed from a reading of the clock and may be no valid date, in
  which case the \<^verbatim>\<open>catch\<close> block raises the failure again.
\<close>

definition generateSignedUrl ::
  "world \<Rightarrow> string option \<Rightarrow> string option \<Rightarrow> int option \<Rightarrow> state
     \<Rightarrow> (js_error + signed_url_result) \<times> state" where
  "generateSignedUrl w key opn expires s =
     rethrow ''Generate signed URL failed: ''
       (case presigner w of
          Inl e \<Rightarrow> (Inl e, s)
        | Inr getSignedUrl \<Rightarrow>
            (case command_for w key (with_default opn ''getObject'') of
               Inl e \<Rightarrow> (Inl e, s)
             | Inr cmd \<Rightarrow>
                 (case getSignedUrl s cmd (with_default expires 3600) of
                    Inl e \<Rightarrow> (Inl e, s\<lparr>signed := signed s @ [(cmd, with_default expires 3600)]\<rparr>)
                  | Inr signedUrl \<Rightarrow>
                      (case Date_now w (s\<lparr>signed := signed s @ [(cmd, with_default expires 3600)]\<rparr>) of
                         (t, s1) \<Rightarrow>
                           (case toISOString w (t + with_default expires 3600 * 1000) of
                              Inl e \<Rightarrow> (Inl e, s1)
                            | Inr x \<Rightarrow>
                                (case isoNow w s1 of
                                   (g, s2) \<Rightarrow>
                                     (Inr \<lparr>url = signedUrl, su_key = key,
                                           operation = with_default opn ''getObject'',
                                           expiresIn = with_default expires 3600,
                                           expiresAt = x,
                                           generatedAt = g\<rparr>, s2)))))))"

section \<open>The notification and feedback helper\<close>

subsection \<open>The browser\<close>

text \<open>
  The elements inside an element, as far as the helper can tell them apart: each with its
  \<^verbatim>\<open>class\<close> attribute and the elements inside it, in document order.
\<close>

datatype node = Node string "node list"

text \<open>
  What the browser does with markup is not part of the helper; it is a parameter.
  \<^item> \<open>parseHTML h\<close>: the elements that assigning the markup \<open>h\<close> to \<^verbatim>\<open>innerHTML\<close>
    puts inside an element.
  \<^item> \<open>serialised h\<close>: what reading \<^verbatim>\<open>innerHTML\<close> returns after \<open>h\<close> was assigned
    (the browser parses the markup and serialises the outcome, which need not be \<open>h\<close>).
  \<^item> \<open>cut c h\<close>: what reading \<^verbatim>\<open>innerHTML\<close> returns once the first element of
    class \<open>c\<close> has been removed from a content that read \<open>h\<close> before.
  \<^item> \<open>inherited n\<close>: the text that the property \<open>n\<close> inherited by an object literal
    prints as in a template (\<^verbatim>\<open>constructor\<close>, \<^verbatim>\<open>toString\<close>, ...), \<open>None\<close> when
    an object literal inherits no truthy property of that name.
\<close>

record browser =
  parseHTML :: "string \<Rightarrow> node list"
  serialised :: "string \<Rightarrow> string"
  cut :: "string \<Rightarrow> string \<Rightarrow> string"
  inherited :: "string \<Rightarrow> string option"

subsection \<open>The page\<close>

text \<open>
  A DOM element, with the properties the helper reads or writes: the \<^verbatim>\<open>class\<close>
  attribute, what reading \<^verbatim>\<open>innerHTML\<close> returns, the elements inside, the
  \<^verbatim>\<open>disabled\<close> flag, the two \<^verbatim>\<open>dataset\<close> entries (missing: \<open>None\<close>) and
  \<^verbatim>\<open>style.animation\<close>.
\<close>

record element =
  className :: string
  innerHTML :: string
  inside :: "node list"
  disabled :: bool
  originalHTML :: "string option"
  originalText :: "string option"
  animation :: string

text \<open>\<^verbatim>\<open>document.createElement\<close>: an element without class and without content.\<close>

definition createElement :: element where
  "createElement = \<lparr>className = [], innerHTML = [], inside = [], disabled = False,
                    originalHTML = None, originalText = None, animation = []\<rparr>"

text \<open>\<^verbatim>\<open>el.innerHTML = h\<close>\<close>

definition set_innerHTML :: "browser \<Rightarrow> string \<Rightarrow> element \<Rightarrow> element" where
  "set_innerHTML b h e = e\<lparr>innerHTML := serialised b h, inside := parseHTML b h\<rparr>"

text \<open>The callbacks the helper hands to \<^verbatim>\<open>setTimeout\<close>; the number is the element.\<close>

datatype callback = FadeOut nat | FinalRemove nat

text \<open>
  The page: its browser, the elements by reference, the references of the elements
  attached to the document in document order (none of them inside another), the next
  unused reference, the ids of the style sheets in the head, and the pending timers with
  their delays.
\<close>

record page =
  browser :: browser
  elements :: "nat \<Rightarrow> element"
  attached :: "nat list"
  nextRef :: nat
  styleIds :: "string list"
  timers :: "(nat \<times> callback) list"

text \<open>
  The class tokens of a \<^verbatim>\<open>class\<close> attribute: its maximal runs without ASCII
  whitespace.
\<close>

definition ascii_whitespace :: "char \<Rightarrow> bool" where
  "ascii_whitespace c = (c \<in> set [CHR 0x20, CHR 0x09, CHR 0x0A, CHR 0x0C, CHR 0x0D])"

fun tokens :: "string \<Rightarrow> string \<Rightarrow> string list" where
  "tokens acc [] = (if acc = [] then [] else [acc])"
| "tokens acc (c # cs) =
     (if ascii_whitespace c then (if acc = [] then tokens [] cs else acc # tokens [] cs)
      else tokens (acc @ [c]) cs)"

definition classTokens :: "string \<Rightarrow> string list" where
  "classTokens cn = tokens [] cn"

fun unwords :: "string list \<Rightarrow> string" where
  "unwords [] = []"
| "unwords [t] = t"
| "unwords (t # u # ts) = t @ '' '' @ unwords (u # ts)"

text \<open>A token set keeps the first occurrence of a repeated token.\<close>

fun dedup :: "string list \<Rightarrow> string list" where
  "dedup [] = []"
| "dedup (t # ts) = t # dedup (filter (\<lambda>u. u \<noteq> t) ts)"

text \<open>\<^verbatim>\<open>classList.add(c)\<close> and \<^verbatim>\<open>classList.remove(c)\<close>\<close>

definition classList_add :: "string \<Rightarrow> string \<Rightarrow> string" where
  "classList_add c cn =
     unwords (if c \<in> set (classTokens cn) then dedup (classTokens cn)
              else dedup (classTokens cn) @ [c])"

definition classList_remove :: "string \<Rightarrow> string \<Rightarrow> string" where
  "classList_remove c cn = unwords (filter (\<lambda>t. t \<noteq> c) (dedup (classTokens cn)))"

text \<open>The number of elements of class \<open>c\<close> in a tree and in a sequence of trees.\<close>

fun subtree_count :: "string \<Rightarrow> node \<Rightarrow> nat" where
  "subtree_count c (Node cn kids) =
     (if c \<in> set (classTokens cn) then 1 else 0) + sum_list (map (subtree_count c) kids)"

definition forest_count :: "string \<Rightarrow> node list \<Rightarrow> nat" where
  "forest_count c f = sum_list (map (subtree_count c) f)"

text \<open>
  Removing the first element of class \<open>c\<close>, in document order, from a sequence of trees;
  what is inside the element goes with it.
\<close>

fun remove_first :: "string \<Rightarrow> node list \<Rightarrow> node list" where
  "remove_first c [] = []"
| "remove_first c (Node cn kids # rest) =
     (if c \<in> set (classTokens cn) then rest
      else if 0 < forest_count c kids then Node cn (remove_first c kids) # rest
      else Node cn kids # remove_first c rest)"

text \<open>
  \<^verbatim>\<open>document.querySelector('.' + c)\<close>: the first element of class \<open>c\<close> in document
  order. It is an attached element itself or an element inside one.
\<close>

datatype found = Itself nat | Below nat

definition has_class :: "page \<Rightarrow> string \<Rightarrow> nat \<Rightarrow> bool" where
  "has_class p c r = (c \<in> set (classTokens (className (elements p r))))"

definition querySelector_class :: "page \<Rightarrow> string \<Rightarrow> found option" where
  "querySelector_class p c =
     (case List.find (\<lambda>r. has_class p c r \<or> 0 < forest_count c (inside (elements p r))) (attached p) of
        None \<Rightarrow> None
      | Some r \<Rightarrow> Some (if has_class p c r then Itself r else Below r))"

text \<open>\<^verbatim>\<open>el.remove()\<close> and \<^verbatim>\<open>el.parentElement\<close> as a condition\<close>

definition remove_element :: "nat \<Rightarrow> page \<Rightarrow> page" where
  "remove_element r p = p\<lparr>attached := filter (\<lambda>x. x \<noteq> r) (attached p)\<rparr>"

definition parentElement :: "page \<Rightarrow> nat \<Rightarrow> bool" where
  "parentElement p r = (r \<in> set (attached p))"

text \<open>\<^verbatim>\<open>existing.remove()\<close> for what \<^verbatim>\<open>querySelector('.' + c)\<close> found.\<close>

fun remove_found :: "string \<Rightarrow> found \<Rightarrow> page \<Rightarrow> page" where
  "remove_found c (Itself r) p = remove_element r p"
| "remove_found c (Below r) p =
     p\<lparr>elements := (elements p)(r := (elements p r)
        \<lparr>inside := remove_first c (inside (elements p r)),
         innerHTML := cut (browser p) c (innerHTML (elements p r))\<rparr>)\<rparr>"

subsection \<open>showNotification\<close>

definition initNotificationStyles :: "page \<Rightarrow> page" where
  "initNotificationStyles p =
     (if ''notification-keyframes'' \<notin> set (styleIds p)
      then p\<lparr>styleIds := styleIds p @ [''notification-keyframes'']\<rparr> else p)"

text \<open>
  \<^verbatim>\<open>icons[type] || icons.success\<close>: the four own properties first, then whatever the
  object literal inherits under that name, then the fallback.
\<close>

definition getNotificationIcon :: "browser \<Rightarrow> string \<Rightarrow> string" where
  "getNotificationIcon b type =
     (if type = ''success'' then ''check-circle''
      else if type = ''error'' then ''exclamation-triangle''
      else if type = ''warning'' then ''exclamation-circle''
      else if type = ''info'' then ''info-circle''
      else (case inherited b type of Some printed \<Rightarrow> printed | None \<Rightarrow> ''check-circle''))"

definition nl :: string where
  "nl = [CHR 0x0A]"

text \<open>The template literal assigned to \<^verbatim>\<open>notification.innerHTML\<close>.\<close>

definition notification_html :: "browser \<Rightarrow> string \<Rightarrow> string \<Rightarrow> string" where
  \<open>notification_html b msg type =
     nl @ ''            <div class="notification-content">'' @
     nl @ ''                <i class="fas fa-'' @ getNotificationIcon b type @ '' notification-icon"></i>'' @
     nl @ ''                <span>'' @ msg @ ''</span>'' @
     nl @ ''                <button class="notification-close" onclick="this.parentElement.parentElement.remove()">&times;</button>'' @
     nl @ ''            </div>'' @
     nl @ ''        ''\<close>

definition notification_class :: "string \<Rightarrow> string" where
  "notification_class type =
     ''notification '' @ (if type \<noteq> ''success'' then ''notification-'' @ type else [])"

text \<open>
  \<open>msg\<close>, \<open>type\<close> and \<open>duration\<close> are the three arguments; \<open>show_default\<close> below
  fills in the defaults \<^verbatim>\<open>'success'\<close> and \<^verbatim>\<open>5000\<close>. The result is the
  reference of the new element.
\<close>

definition showNotification :: "string \<Rightarrow> string \<Rightarrow> nat \<Rightarrow> page \<Rightarrow> nat \<times> page" where
  "showNotification msg type duration p =
     (let p1 = initNotificationStyles p;
          p2 = (case querySelector_class p1 ''notification'' of
                  None \<Rightarrow> p1
                | Some existing \<Rightarrow> remove_found ''notification'' existing p1);
          notification = nextRef p2;
          p3 = p2\<lparr>nextRef := Suc notification,
                  elements := (elements p2)(notification :=
                    set_innerHTML (browser p2) (notification_html (browser p2) msg type)
                      (createElement\<lparr>className := notification_class type\<rparr>))\<rparr>;
          p4 = p3\<lparr>attached := attached p3 @ [notification]\<rparr>;
          p5 = p4\<lparr>timers := timers p4 @ [(duration, FadeOut notification)]\<rparr>
      in (notification, p5))"

definition show_default :: "string \<Rightarrow> string option \<Rightarrow> nat option \<Rightarrow> page \<Rightarrow> nat \<times> page" where
  "show_default msg type duration p =
     showNotification msg (with_default type ''success'') (with_default duration 5000) p"

text \<open>What a timer's callback does when it fires.\<close>

fun run_callback :: "callback \<Rightarrow> page \<Rightarrow> page" where
  "run_callback (FadeOut n) p =
     (if parentElement p n then
        p\<lparr>elements := (elements p)(n := (elements p n)\<lparr>animation := ''slideOutNotification 0.3s ease forwards''\<rparr>),
          timers := timers p @ [(300, FinalRemove n)]\<rparr>
      else p)"
| "run_callback (FinalRemove n) p =
     (if parentElement p n then remove_element n p else p)"

text \<open>The \<open>k\<close>-th pending timer fires: it leaves the list and its callback runs.\<close>

definition fire_timer :: "nat \<Rightarrow> page \<Rightarrow> page" where
  "fire_timer k p =
     (if k < length (timers p)
      then run_callback (snd (timers p ! k)) (p\<lparr>timers := take k (timers p) @ drop (Suc k) (timers p)\<rparr>)
      else p)"

text \<open>
  The close button's \<^verbatim>\<open>onclick\<close>, \<^verbatim>\<open>this.parentElement.parentElement.remove()\<close>,
  in a notification whose message has left the template's nesting as it is: the button's
  parent is the content box and the parent of that is the notification, which is removed.
\<close>

definition click_close :: "nat \<Rightarrow> page \<Rightarrow> page" where
  "click_close n p = remove_element n p"

subsection \<open>setLoading\<close>

definition spinner :: string where
  \<open>spinner = ''<i class="fas fa-spinner fa-spin"></i>''\<close>

definition icon_marker :: string where
  \<open>icon_marker = ''<i class="fas''\<close>

text \<open>\<^verbatim>\<open>x || y\<close> on strings, \<open>x\<close> possibly missing.\<close>

definition or_else :: "string option \<Rightarrow> string \<Rightarrow> string" where
  "or_else x y = (case x of None \<Rightarrow> y | Some v \<Rightarrow> if v = [] then y else v)"

text \<open>
  \<open>textOf\<close> is the browser's \<^verbatim>\<open>textContent\<close> of a content, given what
  \<^verbatim>\<open>innerHTML\<close> reads. The target is \<open>None\<close> for \<^verbatim>\<open>null\<close> or a missing
  argument.
\<close>

definition setLoading_element ::
  "(string \<Rightarrow> string) \<Rightarrow> browser \<Rightarrow> bool \<Rightarrow> element \<Rightarrow> element" where
  "setLoading_element textOf b isLoading button =
     (let origHTML = or_else (originalHTML button) (innerHTML button);
          origText = or_else (originalText button) (textOf (innerHTML button));
          b1 = (if \<not> truthy (originalHTML button)
                then button\<lparr>originalHTML := Some origHTML, originalText := Some origText\<rparr>
                else button)
      in if isLoading then
           set_innerHTML b
             (if includes_str (innerHTML b1) icon_marker then spinner
              else spinner @ '' Processing...'')
             (b1\<lparr>disabled := True,
                 className := classList_add ''btn-loading'' (className b1)\<rparr>)
         else
           set_innerHTML b origHTML
             (b1\<lparr>disabled := False,
                 className := classList_remove ''btn-loading'' (className b1)\<rparr>))"

definition setLoading :: "(string \<Rightarrow> string) \<Rightarrow> nat option \<Rightarrow> bool \<Rightarrow> page \<Rightarrow> page" where
  "setLoading textOf button isLoading p =
     (case button of
        None \<Rightarrow> p
      | Some b \<Rightarrow>
          p\<lparr>elements := (elements p)(b := setLoading_element textOf (browser p) isLoading (elements p b))\<rparr>)"

subsection \<open>fetchWithFeedback\<close>

text \<open>The JSON envelope of an endpoint, and the response \<^verbatim>\<open>fetch\<close> resolves to.\<close>

record envelope =
  success :: bool
  data_message :: "string option"
  data_error :: "string option"

record response =
  ok :: bool
  json :: "js_error + envelope"

record fetch_options =
  headers :: "(string \<rightharpoonup> string) option"
  http_method :: "string option"
  body :: "string option"

text \<open>
  The second argument of \<^verbatim>\<open>fetch\<close>: the default header merged with the caller's
  headers, then the spread of the options, which puts the caller's own \<^verbatim>\<open>headers\<close>
  back when there is one.
\<close>

definition fetch_init :: "fetch_options \<Rightarrow> fetch_options" where
  "fetch_init options =
     options\<lparr>headers :=
       (case headers options of
          None \<Rightarrow> Some [''Content-Type'' \<mapsto> ''application/json'']
        | Some h \<Rightarrow> Some h)\<rparr>"

text \<open>The body of the \<^verbatim>\<open>try\<close> block, from the settled \<^verbatim>\<open>fetch\<close> on.\<close>

definition fetch_try ::
  "js_error + response \<Rightarrow> string \<Rightarrow> page \<Rightarrow> (js_error + envelope) \<times> page" where
  "fetch_try fetched successMessage p =
     (case fetched of
        Inl e \<Rightarrow> (Inl e, p)
      | Inr resp \<Rightarrow>
          (case json resp of
             Inl e \<Rightarrow> (Inl e, p)
           | Inr data \<Rightarrow>
               if ok resp \<and> success data then
                 (if successMessage \<noteq> [] then
                    (Inr data, snd (show_default (or_else (data_message data) successMessage) None None p))
                  else (Inr data, p))
               else
                 (Inl (Error (or_else (data_error data) ''Operation failed'')),
                  snd (show_default
                         (or_else (data_error data) (or_else (data_message data) ''Operation failed''))
                         (Some ''error'') None p))))"

text \<open>The \<^verbatim>\<open>catch\<close> block: it may show a notification, and throws the error again.\<close>

definition fetch_catch :: "(js_error + envelope) \<times> page \<Rightarrow> (js_error + envelope) \<times> page" where
  "fetch_catch r =
     (case r of
        (Inl error, p) \<Rightarrow>
          if name error = ''TypeError'' \<and> includes_str (message error) ''fetch'' then
            (Inl error,
             snd (show_default ''Network error. Please check your connection and try again.''
                    (Some ''error'') None p))
          else if \<not> includes_str (message error) ''Operation failed'' then
            (Inl error,
             snd (show_default ''An unexpected error occurred. Please try again.''
                    (Some ''error'') None p))
          else (Inl error, p)
      | (Inr data, p) \<Rightarrow> (Inr data, p))"

text \<open>
  \<open>fetch\<close> is the browser's function, settled: an error when the promise rejects.
  The \<^verbatim>\<open>finally\<close> block runs last on every path.
\<close>

definition fetchWithFeedback ::
  "(string \<Rightarrow> string) \<Rightarrow> (string \<Rightarrow> fetch_options \<Rightarrow> js_error + response) \<Rightarrow>
     string \<Rightarrow> fetch_options \<Rightarrow> nat option \<Rightarrow> string \<Rightarrow> page \<Rightarrow> (js_error + envelope) \<times> page" where
  "fetchWithFeedback textOf fetch endpoint options button successMessage p =
     (case fetch_catch
             (fetch_try (fetch endpoint (fetch_init options)) successMessage
                (setLoading textOf button True p)) of
        (r, p') \<Rightarrow> (r, setLoading textOf button False p'))"

section \<open>Notions of the specification\<close>

text \<open>
  The partition the specification speaks of: consecutive chunks of \<open>n\<close> elements, the
  last one possibly shorter.
\<close>

function chunks :: "nat \<Rightarrow> 'a list \<Rightarrow> 'a list list" where
  "chunks n xs = (if n = 0 \<or> xs = [] then [] else take n xs # chunks n (drop n xs))"
  by pat_completeness auto
termination
  by (relation "measure (\<lambda>(n, xs). length xs)") auto

declare chunks.simps [simp del]

text \<open>
  Sending a list of requests one after the other, stopping at the first that rejects,
  and collecting the outputs.
\<close>

fun send_all :: "world \<Rightarrow> command list \<Rightarrow> state \<Rightarrow> (js_error + sdk_output list) \<times> state" where
  "send_all w [] s = (Inr [], s)"
| "send_all w (c # cs) s =
     (case r2Client_send w c s of
        (Inl e, s') \<Rightarrow> (Inl e, s')
      | (Inr out, s') \<Rightarrow>
          (case send_all w cs s' of
             (Inl e, s'') \<Rightarrow> (Inl e, s'')
           | (Inr outs, s'') \<Rightarrow> (Inr (out # outs), s'')))"

text \<open>The number of object identifiers a request carries.\<close>

fun identifiers :: "command \<Rightarrow> nat" where
  "identifiers (DeleteObjectsCommand b ks q) = length ks"
| "identifiers c = 1"

text \<open>The requests the specification expects of a batch deletion: one per chunk.\<close>

definition chunk_requests :: "world \<Rightarrow> string list \<Rightarrow> command list" where
  "chunk_requests w keys =
     map (\<lambda>b. DeleteObjectsCommand (BUCKET_NAME w) b False) (chunks maxBatchSize keys)"

text \<open>A storage service that answers every request, and a quiet initial state.\<close>

definition obliging_world :: world where
  "obliging_world =
     \<lparr>BUCKET_NAME = ''bucket'',
      send = (\<lambda>s c. Inr \<lparr>ContentLength = Some 42,
                          Deleted = (case c of DeleteObjectsCommand b ks q \<Rightarrow> Some ks | _ \<Rightarrow> None),
                          Errors = None, ETag = None\<rparr>),
      clock = (\<lambda>k. int k),
      iso = (\<lambda>t. ''T''),
      presigner = Inr (\<lambda>s c e. Inr ''https://signed.example/url'')\<rparr>"

definition state0 :: state where
  "state0 = \<lparr>sent = [], signed = [], ticks = 0\<rparr>"

text \<open>A list of 2500 keys.\<close>

definition many_keys :: "string list" where
  "many_keys = replicate 2500 ''k''"

text \<open>Calls without options.\<close>

definition no_upload_options :: upload_options where
  "no_upload_options =
     \<lparr>metadata = None, cacheControl = None, storageClass = None, serverSideEncryption = None\<rparr>"

definition no_download_options :: download_options where
  "no_download_options =
     \<lparr>range = None, ifNoneMatch = None, ifModifiedSince = None,
      responseCacheControl = None, responseContentType = None\<rparr>"

text \<open>
  A storage service with one object: it knows the key \<^verbatim>\<open>present\<close>, denies access to
  the key \<^verbatim>\<open>denied\<close>, and reports every other key as not found.
\<close>

definition sample_world :: world where
  "sample_world =
     \<lparr>BUCKET_NAME = ''bucket'',
      send = (\<lambda>s c.
        case c of
          HeadObjectCommand b k \<Rightarrow>
            if k = Some ''present''
            then Inr \<lparr>ContentLength = Some 42, Deleted = None, Errors = None, ETag = Some ''e1''\<rparr>
            else if k = Some ''denied''
            then Inl \<lparr>name = ''AccessDenied'', message = ''no''\<rparr>
            else Inl \<lparr>name = ''NotFound'', message = ''missing''\<rparr>
        | _ \<Rightarrow> Inr \<lparr>ContentLength = None, Deleted = None, Errors = None, ETag = None\<rparr>),
      clock = (\<lambda>k. int k),
      iso = (\<lambda>t. ''T''),
      presigner = Inl \<lparr>name = ''Error'', message = ''Cannot find module''\<rparr>\<rparr>"

text \<open>Upload options whose metadata reuses one of the generated names.\<close>

definition tagged_options :: upload_options where
  "tagged_options =
     no_upload_options\<lparr>metadata := Some [''upload-source'' \<mapsto> ''cli'', ''owner'' \<mapsto> ''ann'']\<rparr>"

text \<open>
  The attached elements that are notifications, in document order, and the number of
  elements of a class in the whole document: the attached ones and all that is inside
  them.
\<close>

definition notifications :: "page \<Rightarrow> nat list" where
  "notifications p = filter (has_class p ''notification'') (attached p)"

definition count_class :: "page \<Rightarrow> string \<Rightarrow> nat" where
  "count_class p c =
     (\<Sum>r\<leftarrow>attached p. (if has_class p c r then 1 else 0) + forest_count c (inside (elements p r)))"

text \<open>
  A message and a type are plain for a browser when the filled template, once parsed, holds
  no element of class \<^verbatim>\<open>notification\<close>. A message without markup is plain.
\<close>

definition plain :: "browser \<Rightarrow> string \<Rightarrow> string \<Rightarrow> bool" where
  "plain b msg type = (forest_count ''notification'' (parseHTML b (notification_html b msg type)) = 0)"

text \<open>
  The pages the helper can bring about with plain messages. At the start the document
  holds no notification element, its attached elements are distinct and their references
  are in use. From there a page script may show a notification with a plain message, or
  toggle the loading state of a target whose new content holds no notification element; a
  pending timer may fire; and the user may press a close button.
\<close>

inductive reachable :: "page \<Rightarrow> bool" where
  start: "distinct (attached p) \<Longrightarrow> list_all (\<lambda>r. r < nextRef p) (attached p) \<Longrightarrow>
            count_class p ''notification'' = 0 \<Longrightarrow> reachable p"
| shown: "reachable p \<Longrightarrow> plain (browser p) msg type \<Longrightarrow>
            reachable (snd (showNotification msg type duration p))"
| fired: "reachable p \<Longrightarrow> reachable (fire_timer k p)"
| closed: "reachable p \<Longrightarrow> reachable (click_close n p)"
| toggled: "reachable p \<Longrightarrow>
            forest_count ''notification''
              (inside (elements (setLoading textOf (Some b) isLoading p) b)) = 0 \<Longrightarrow>
            reachable (setLoading textOf (Some b) isLoading p)"

text \<open>Applying \<^verbatim>\<open>setLoading\<close> to one target with a sequence of flags, in order.\<close>

fun toggle_all :: "(string \<Rightarrow> string) \<Rightarrow> nat option \<Rightarrow> bool list \<Rightarrow> page \<Rightarrow> page" where
  "toggle_all textOf button [] p = p"
| "toggle_all textOf button (f # fs) p = toggle_all textOf button fs (setLoading textOf button f p)"

text \<open>
  A browser to try the helper with. It stands for a real one on the markup used below:
  every \<^verbatim>\<open>class="..."\<close> attribute in a markup text is taken for one element (their
  nesting is not looked at), reading \<^verbatim>\<open>innerHTML\<close> gives the assigned markup with
  the entity \<^verbatim>\<open>&times;\<close> replaced by the multiplication sign, and of the inherited
  properties only \<^verbatim>\<open>constructor\<close> is known. Its \<open>cut\<close> is never called there.
\<close>

definition class_marker :: string where
  \<open>class_marker = ''class="''\<close>

fun class_attributes :: "string option \<Rightarrow> string \<Rightarrow> string list" where
  "class_attributes st [] = []"
| "class_attributes (Some acc) (c # cs) =
     (if c = CHR 0x22 then acc # class_attributes None cs
      else class_attributes (Some (acc @ [c])) cs)"
| "class_attributes None (c # cs) =
     (if starts_with (c # cs) class_marker then class_attributes (Some []) (drop 6 cs)
      else class_attributes None cs)"

fun decode_times :: "string \<Rightarrow> string" where
  "decode_times [] = []"
| "decode_times (c # cs) =
     (if starts_with (c # cs) ''&times;'' then CHR 0xC3 # CHR 0x97 # decode_times (drop 6 cs)
      else c # decode_times cs)"

definition sample_browser :: browser where
  "sample_browser =
     \<lparr>parseHTML = (\<lambda>h. map (\<lambda>cn. Node cn []) (class_attributes None h)),
      serialised = decode_times,
      cut = (\<lambda>c h. h),
      inherited = [''constructor'' \<mapsto> ''function Object() { [native code] }'']\<rparr>"

text \<open>
  A page with two buttons and no notification: button 0 is labelled, button 1 has no
  content of its own (its face is drawn by the style sheet).
\<close>

definition page0 :: page where
  "page0 =
     \<lparr>browser = sample_browser,
      elements = (\<lambda>r. createElement)
        (0 := createElement\<lparr>className := ''btn btn-primary'', innerHTML := ''Save''\<rparr>,
         1 := createElement\<lparr>className := ''icon-btn''\<rparr>),
      attached = [0, 1],
      nextRef = 2,
      styleIds = [],
      timers = []\<rparr>"

text \<open>A message that brings an element of class \<^verbatim>\<open>notification\<close> with it.\<close>

definition nested_message :: string where
  \<open>nested_message = ''<div class="notification">x</div>''\<close>

text \<open>
  An endpoint that answers with HTTP success and the envelope
  \<^verbatim>\<open>{success: false, error: "X"}\<close>, and a call without options.
\<close>

definition refusing_endpoint :: "string \<Rightarrow> fetch_options \<Rightarrow> js_error + response" where
  "refusing_endpoint u init =
     Inr \<lparr>ok = True, json = Inr \<lparr>success = False, data_message = None, data_error = Some ''X''\<rparr>\<rparr>"

definition no_fetch_options :: fetch_options where
  "no_fetch_options = \<lparr>headers = None, http_method = None, body = None\<rparr>"

text \<open>A class token: not empty and without whitespace.\<close>

definition word :: "string \<Rightarrow> bool" where
  "word t = (t \<noteq> [] \<and> (\<forall>c \<in> set t. \<not> ascii_whitespace c))"

text \<open>
  A tidy page: the attached elements are distinct, their references are in use, and the
  document holds at most one element of class \<^verbatim>\<open>notification\<close>.
\<close>

definition tidy :: "page \<Rightarrow> bool" where
  "tidy p = (distinct (attached p) \<and> list_all (\<lambda>r. r < nextRef p) (attached p)
             \<and> count_class p ''notification'' \<le> 1)"

section \<open>Batch deletion\<close>

lemma chunks_Nil [simp]: "chunks n [] = []"
  by (simp add: chunks.simps)

lemma chunks_step: "0 < n \<Longrightarrow> xs \<noteq> [] \<Longrightarrow> chunks n xs = take n xs # chunks n (drop n xs)"
  by (subst chunks.simps) simp

lemma concat_chunks: "0 < n \<Longrightarrow> concat (chunks n xs) = xs"
  by (induction n xs rule: chunks.induct) (subst chunks.simps, simp)

lemma chunks_bounds: "b \<in> set (chunks n xs) \<Longrightarrow> 0 < length b \<and> length b \<le> n"
proof (induction n xs rule: chunks.induct)
  case (1 n xs)
  show ?case
  proof (cases "n = 0 \<or> xs = []")
    case True
    with "1.prems" show ?thesis by (simp add: chunks.simps)
  next
    case False
    with "1.prems" have "b = take n xs \<or> b \<in> set (chunks n (drop n xs))"
      by (subst (asm) chunks.simps) auto
    then show ?thesis
    proof
      assume "b = take n xs"
      with False show ?thesis by (cases xs) auto
    next
      assume "b \<in> set (chunks n (drop n xs))"
      with "1.IH" False show ?thesis by blast
    qed
  qed
qed

lemma chunks_2500:
  assumes "length xs = 2500"
  shows "map length (chunks 1000 xs) = [1000, 1000, 500]"
proof -
  have a: "chunks 1000 xs = take 1000 xs # chunks 1000 (drop 1000 xs)"
    using assms by (intro chunks_step) auto
  have b: "chunks 1000 (drop 1000 xs) = take 1000 (drop 1000 xs) # chunks 1000 (drop 1000 (drop 1000 xs))"
    using assms by (intro chunks_step) auto
  have c: "chunks 1000 (drop 1000 (drop 1000 xs)) =
      take 1000 (drop 1000 (drop 1000 xs)) # chunks 1000 (drop 1000 (drop 1000 (drop 1000 xs)))"
    using assms by (intro chunks_step) auto
  have d: "drop 1000 (drop 1000 (drop 1000 xs)) = []"
    using assms by simp
  show ?thesis
    unfolding a b c d using assms by simp
qed

lemma loop_send_all:
  "deleteFiles_loop w keys i rs s =
     (case send_all w (map (\<lambda>b. DeleteObjectsCommand (BUCKET_NAME w) b False) (chunks maxBatchSize (drop i keys))) s of
        (Inl e, s') \<Rightarrow> (Inl e, s')
      | (Inr outs, s') \<Rightarrow> (Inr (rs @ outs), s'))"
proof (induction w keys i rs s rule: deleteFiles_loop.induct)
  case (1 w keys i rs s)
  show ?case
  proof (cases "i < length keys")
    case False
    then show ?thesis by (subst deleteFiles_loop.simps) simp
  next
    case True
    then have ne: "drop i keys \<noteq> []" by simp
    have ch: "chunks maxBatchSize (drop i keys) =
        slice keys i (i + maxBatchSize) # chunks maxBatchSize (drop (i + maxBatchSize) keys)"
      using ne by (simp add: chunks_step maxBatchSize_def slice_def add.commute)
    show ?thesis
      apply (subst deleteFiles_loop.simps)
      apply (simp add: True ch split: prod.splits sum.splits)
      using 1 True
      apply (auto split: prod.splits sum.splits)
      done
  qed
qed

lemma send_all_prefix:
  "\<exists>k\<le>length cs. sent (snd (send_all w cs s)) = sent s @ take k cs"
proof (induction cs arbitrary: s)
  case Nil
  then show ?case by simp
next
  case (Cons c cs)
  show ?case
  proof (cases "send w s c")
    case (Inl e)
    then have "sent (snd (send_all w (c # cs) s)) = sent s @ take 1 (c # cs)"
      by (simp add: r2Client_send_def)
    then show ?thesis by (intro exI [of _ 1]) simp
  next
    case (Inr out)
    obtain k where k: "k \<le> length cs"
      "sent (snd (send_all w cs (s\<lparr>sent := sent s @ [c]\<rparr>))) = (sent s @ [c]) @ take k cs"
      using Cons.IH [of "s\<lparr>sent := sent s @ [c]\<rparr>"] by auto
    have "sent (snd (send_all w (c # cs) s)) = sent s @ take (Suc k) (c # cs)"
      using Inr k(2) by (auto simp: r2Client_send_def split: prod.splits sum.splits)
    with k(1) show ?thesis by (intro exI [of _ "Suc k"]) simp
  qed
qed

lemma foldl_deleted: "foldl (\<lambda>acc result. acc + deletedLength result) a rs = a + sum_list (map deletedLength rs)"
  by (induction rs arbitrary: a) auto

lemma deleteFiles_eq:
  "keys \<noteq> [] \<Longrightarrow> deleteFiles w (Some keys) s =
     (case send_all w (chunk_requests w keys) s of
        (Inl e, s') \<Rightarrow> (Inl (Error (''Batch delete failed: '' @ message e)), s')
      | (Inr rs, s') \<Rightarrow>
          (Inr \<lparr>results = rs,
                deletedCount = sum_list (map deletedLength rs),
                errors = foldl (\<lambda>acc result. acc @ errorsOf result) [] rs,
                deletedAt = iso w (clock w (ticks s'))\<rparr>, s'\<lparr>ticks := Suc (ticks s')\<rparr>))"
  by (simp add: deleteFiles_def loop_send_all chunk_requests_def rethrow_def isoNow_def Date_now_def
      foldl_deleted split: prod.splits sum.splits)

lemma deleteFiles_empty:
  "deleteFiles w None s = (Inl (Error ''Batch delete failed: Keys array is required and must not be empty''), s)"
  "deleteFiles w (Some []) s = (Inl (Error ''Batch delete failed: Keys array is required and must not be empty''), s)"
  by (simp_all add: deleteFiles_def rethrow_def Error_def)

lemma identifiers_chunk_requests: "c \<in> set (chunk_requests w keys) \<Longrightarrow> 0 < identifiers c \<and> identifiers c \<le> 1000"
  using chunks_bounds [where n = maxBatchSize and xs = keys]
  by (auto simp: chunk_requests_def maxBatchSize_def)

lemma after_Cons: "(s\<lparr>sent := sent s @ [c]\<rparr>)\<lparr>sent := sent (s\<lparr>sent := sent s @ [c]\<rparr>) @ take k cs\<rparr>
   = s\<lparr>sent := sent s @ take (Suc k) (c # cs)\<rparr>"
  by simp

lemma after_none: "s\<lparr>sent := sent s @ take 0 cs\<rparr> = s"
  by simp

lemma send_all_answers:
  "send_all w cs s = (Inr outs, s') \<Longrightarrow>
     s' = s\<lparr>sent := sent s @ cs\<rparr> \<and> length outs = length cs
     \<and> (\<forall>k<length cs. send w (s\<lparr>sent := sent s @ take k cs\<rparr>) (cs ! k) = Inr (outs ! k))"
proof (induction cs arbitrary: s outs)
  case Nil
  then show ?case by simp
next
  case (Cons c cs)
  let ?s1 = "s\<lparr>sent := sent s @ [c]\<rparr>"
  from Cons.prems obtain out outs1 where
    1: "send w s c = Inr out" and 3: "send_all w cs ?s1 = (Inr outs1, s')" and 4: "outs = out # outs1"
    by (auto simp: r2Client_send_def split: sum.splits prod.splits)
  from Cons.IH [OF 3] have a: "s' = ?s1\<lparr>sent := sent ?s1 @ cs\<rparr>" and b: "length outs1 = length cs"
    and c: "\<forall>k<length cs. send w (?s1\<lparr>sent := sent ?s1 @ take k cs\<rparr>) (cs ! k) = Inr (outs1 ! k)"
    by blast+
  have "send w (s\<lparr>sent := sent s @ take k (c # cs)\<rparr>) ((c # cs) ! k) = Inr (outs ! k)"
    if "k < length (c # cs)" for k
  proof (cases k)
    case 0
    with 1 4 show ?thesis by simp
  next
    case (Suc j)
    with that have "j < length cs" by simp
    with c have "send w (?s1\<lparr>sent := sent ?s1 @ take j cs\<rparr>) (cs ! j) = Inr (outs1 ! j)" by blast
    with Suc 4 show ?thesis by simp
  qed
  with a b 4 show ?case by simp
qed

lemma send_all_rejected:
  "send_all w cs s = (Inl e, s') \<Longrightarrow>
     \<exists>k<length cs. s' = s\<lparr>sent := sent s @ take (Suc k) cs\<rparr>
       \<and> send w (s\<lparr>sent := sent s @ take k cs\<rparr>) (cs ! k) = Inl e
       \<and> (\<forall>j<k. \<not> isl (send w (s\<lparr>sent := sent s @ take j cs\<rparr>) (cs ! j)))"
proof (induction cs arbitrary: s)
  case Nil
  then show ?case by simp
next
  case (Cons c cs)
  let ?s1 = "s\<lparr>sent := sent s @ [c]\<rparr>"
  show ?case
  proof (cases "send w s c")
    case (Inl e0)
    with Cons.prems have "e = e0" "s' = ?s1" by (simp_all add: r2Client_send_def)
    with Inl show ?thesis by (intro exI [of _ 0]) simp
  next
    case (Inr out)
    with Cons.prems have "send_all w cs ?s1 = (Inl e, s')"
      by (auto simp: r2Client_send_def split: sum.splits prod.splits)
    from Cons.IH [OF this] obtain k where k: "k < length cs"
      "s' = ?s1\<lparr>sent := sent ?s1 @ take (Suc k) cs\<rparr>"
      "send w (?s1\<lparr>sent := sent ?s1 @ take k cs\<rparr>) (cs ! k) = Inl e"
      "\<forall>j<k. \<not> isl (send w (?s1\<lparr>sent := sent ?s1 @ take j cs\<rparr>) (cs ! j))"
      by blast
    have "\<not> isl (send w (s\<lparr>sent := sent s @ take j (c # cs)\<rparr>) ((c # cs) ! j))" if "j < Suc k" for j
    proof (cases j)
      case 0
      with Inr show ?thesis by simp
    next
      case (Suc i)
      with that have "i < k" by simp
      with k(4) have "\<not> isl (send w (?s1\<lparr>sent := sent ?s1 @ take i cs\<rparr>) (cs ! i))" by blast
      with Suc show ?thesis by simp
    qed
    with k(1-3) show ?thesis by (intro exI [of _ "Suc k"]) simp
  qed
qed

lemma send_all_answered:
  "(\<forall>k<length cs. \<not> isl (send w (s\<lparr>sent := sent s @ take k cs\<rparr>) (cs ! k))) \<Longrightarrow>
     \<exists>outs s'. send_all w cs s = (Inr outs, s')"
proof (induction cs arbitrary: s)
  case Nil
  then show ?case by simp
next
  case (Cons c cs)
  let ?s1 = "s\<lparr>sent := sent s @ [c]\<rparr>"
  from Cons.prems have "\<not> isl (send w (s\<lparr>sent := sent s @ take 0 (c # cs)\<rparr>) ((c # cs) ! 0))"
    by blast
  then obtain out where 1: "send w s c = Inr out"
    by (cases "send w s c") auto
  have "\<not> isl (send w (?s1\<lparr>sent := sent ?s1 @ take k cs\<rparr>) (cs ! k))" if "k < length cs" for k
  proof -
    from that have "Suc k < length (c # cs)" by simp
    with Cons.prems have "\<not> isl (send w (s\<lparr>sent := sent s @ take (Suc k) (c # cs)\<rparr>) ((c # cs) ! Suc k))"
      by blast
    then show ?thesis by simp
  qed
  then obtain outs s' where "send_all w cs ?s1 = (Inr outs, s')"
    using Cons.IH [of ?s1] by blast
  with 1 show ?case by (simp add: r2Client_send_def)
qed
text \<open>
  C1. A batch deletion cuts the keys into consecutive chunks of at most 1000 keys (the
  chunks put together are the keys again, none is empty, and 2500 keys give chunks of
  1000, 1000 and 500). No request it sends carries more than 1000 identifiers. When the
  call returns, the requests sent are exactly the requests of the chunks, one each and in
  order, the results are the service's answers to them, and \<open>deletedCount\<close> is the sum
  over these answers of the length of their \<open>Deleted\<close> list (nothing for an answer
  without one). When the call fails on a list that is not empty, the requests sent are
  those of the chunks up to and including the first the service rejected, and the error
  carries that rejection. The call returns exactly when the service answers every chunk's
  request in turn.
\<close>

theorem deleteFiles_chunked:
  "concat (chunks maxBatchSize keys) = keys
   \<and> (\<forall>b \<in> set (chunks maxBatchSize keys). 0 < length b \<and> length b \<le> 1000)
   \<and> (length keys = 2500 \<longrightarrow> map length (chunks maxBatchSize keys) = [1000, 1000, 500])
   \<and> (\<forall>c \<in> set (drop (length (sent s)) (sent (snd (deleteFiles w (Some keys) s)))).
         identifiers c \<le> 1000)
   \<and> (\<forall>r s'. deleteFiles w (Some keys) s = (Inr r, s') \<longrightarrow>
         sent s' = sent s @ chunk_requests w keys
         \<and> length (results r) = length (chunks maxBatchSize keys)
         \<and> (\<forall>k < length (chunk_requests w keys).
               send w (s\<lparr>sent := sent s @ take k (chunk_requests w keys)\<rparr>) (chunk_requests w keys ! k) =
                 Inr (results r ! k))
         \<and> deletedCount r =
             (\<Sum>x\<leftarrow>results r. case Deleted x of None \<Rightarrow> 0 | Some ds \<Rightarrow> length ds))
   \<and> (\<forall>e s'. keys \<noteq> [] \<and> deleteFiles w (Some keys) s = (Inl e, s') \<longrightarrow>
         (\<exists>k < length (chunk_requests w keys). \<exists>e0.
             sent s' = sent s @ take (Suc k) (chunk_requests w keys)
             \<and> send w (s\<lparr>sent := sent s @ take k (chunk_requests w keys)\<rparr>) (chunk_requests w keys ! k) = Inl e0
             \<and> e = \<lparr>name = ''Error'', message = ''Batch delete failed: '' @ message e0\<rparr>
             \<and> (\<forall>j < k. \<not> isl (send w (s\<lparr>sent := sent s @ take j (chunk_requests w keys)\<rparr>)
                                  (chunk_requests w keys ! j)))))
   \<and> (keys \<noteq> []
        \<and> (\<forall>k < length (chunk_requests w keys).
              \<not> isl (send w (s\<lparr>sent := sent s @ take k (chunk_requests w keys)\<rparr>) (chunk_requests w keys ! k)))
        \<longrightarrow> (\<exists>r s'. deleteFiles w (Some keys) s = (Inr r, s')))"
proof -
  let ?reqs = "chunk_requests w keys"
  have A: "concat (chunks maxBatchSize keys) = keys"
    by (simp add: concat_chunks maxBatchSize_def)
  have B: "\<forall>b \<in> set (chunks maxBatchSize keys). 0 < length b \<and> length b \<le> 1000"
    using chunks_bounds [where n = maxBatchSize and xs = keys] by (auto simp: maxBatchSize_def)
  have C: "length keys = 2500 \<longrightarrow> map length (chunks maxBatchSize keys) = [1000, 1000, 500]"
    by (simp add: chunks_2500 maxBatchSize_def)
  have D: "\<exists>k \<le> length ?reqs. sent (snd (deleteFiles w (Some keys) s)) = sent s @ take k ?reqs"
  proof (cases "keys = []")
    case True
    then show ?thesis by (intro exI [of _ 0]) (simp add: deleteFiles_empty)
  next
    case False
    obtain k where "k \<le> length ?reqs"
      "sent (snd (send_all w ?reqs s)) = sent s @ take k ?reqs"
      using send_all_prefix by blast
    then show ?thesis
      using False by (intro exI [of _ k]) (auto simp: deleteFiles_eq split: prod.splits sum.splits)
  qed
  have E: "\<forall>c \<in> set (drop (length (sent s)) (sent (snd (deleteFiles w (Some keys) s)))).
         identifiers c \<le> 1000"
  proof -
    from D obtain k where "sent (snd (deleteFiles w (Some keys) s)) = sent s @ take k ?reqs"
      by blast
    then have "set (drop (length (sent s)) (sent (snd (deleteFiles w (Some keys) s)))) \<subseteq> set ?reqs"
      by (simp add: set_take_subset)
    then show ?thesis using identifiers_chunk_requests by blast
  qed
  have F: "\<forall>r s'. deleteFiles w (Some keys) s = (Inr r, s') \<longrightarrow>
         sent s' = sent s @ ?reqs
         \<and> length (results r) = length (chunks maxBatchSize keys)
         \<and> (\<forall>k < length ?reqs.
               send w (s\<lparr>sent := sent s @ take k ?reqs\<rparr>) (?reqs ! k) = Inr (results r ! k))
         \<and> deletedCount r =
             (\<Sum>x\<leftarrow>results r. case Deleted x of None \<Rightarrow> 0 | Some ds \<Rightarrow> length ds)"
  proof (intro allI impI)
    fix r s'
    assume run: "deleteFiles w (Some keys) s = (Inr r, s')"
    then have ne: "keys \<noteq> []" by (auto simp: deleteFiles_empty)
    from run obtain rs s1 where sa: "send_all w ?reqs s = (Inr rs, s1)"
      and r: "results r = rs" "deletedCount r = sum_list (map deletedLength rs)"
      and s': "s' = s1\<lparr>ticks := Suc (ticks s1)\<rparr>"
      by (auto simp: deleteFiles_eq [OF ne] split: prod.splits sum.splits)
    from send_all_answers [OF sa] have s1: "s1 = s\<lparr>sent := sent s @ ?reqs\<rparr>"
      and len: "length rs = length ?reqs"
      and ans: "\<forall>k<length ?reqs. send w (s\<lparr>sent := sent s @ take k ?reqs\<rparr>) (?reqs ! k) = Inr (rs ! k)"
      by blast+
    have cnt: "sum_list (map deletedLength rs) =
        (\<Sum>x\<leftarrow>rs. case Deleted x of None \<Rightarrow> 0 | Some ds \<Rightarrow> length ds)"
      by (simp add: deletedLength_def [abs_def])
    from s1 s' len ans r cnt
    show "sent s' = sent s @ ?reqs
         \<and> length (results r) = length (chunks maxBatchSize keys)
         \<and> (\<forall>k < length ?reqs.
               send w (s\<lparr>sent := sent s @ take k ?reqs\<rparr>) (?reqs ! k) = Inr (results r ! k))
         \<and> deletedCount r =
             (\<Sum>x\<leftarrow>results r. case Deleted x of None \<Rightarrow> 0 | Some ds \<Rightarrow> length ds)"
      by (simp add: chunk_requests_def)
  qed
  have G: "\<forall>e s'. keys \<noteq> [] \<and> deleteFiles w (Some keys) s = (Inl e, s') \<longrightarrow>
         (\<exists>k < length ?reqs. \<exists>e0.
             sent s' = sent s @ take (Suc k) ?reqs
             \<and> send w (s\<lparr>sent := sent s @ take k ?reqs\<rparr>) (?reqs ! k) = Inl e0
             \<and> e = \<lparr>name = ''Error'', message = ''Batch delete failed: '' @ message e0\<rparr>
             \<and> (\<forall>j < k. \<not> isl (send w (s\<lparr>sent := sent s @ take j ?reqs\<rparr>) (?reqs ! j))))"
  proof (intro allI impI, elim conjE)
    fix e s'
    assume ne: "keys \<noteq> []" and run: "deleteFiles w (Some keys) s = (Inl e, s')"
    from run obtain e0 where sa: "send_all w ?reqs s = (Inl e0, s')"
      and e: "e = Error (''Batch delete failed: '' @ message e0)"
      by (auto simp: deleteFiles_eq [OF ne] split: prod.splits sum.splits)
    from send_all_rejected [OF sa] obtain k where k: "k < length ?reqs"
      "s' = s\<lparr>sent := sent s @ take (Suc k) ?reqs\<rparr>"
      "send w (s\<lparr>sent := sent s @ take k ?reqs\<rparr>) (?reqs ! k) = Inl e0"
      "\<forall>j<k. \<not> isl (send w (s\<lparr>sent := sent s @ take j ?reqs\<rparr>) (?reqs ! j))"
      by blast
    from k(2) have "sent s' = sent s @ take (Suc k) ?reqs" by simp
    with k(1,3,4) e show "\<exists>k < length ?reqs. \<exists>e0.
             sent s' = sent s @ take (Suc k) ?reqs
             \<and> send w (s\<lparr>sent := sent s @ take k ?reqs\<rparr>) (?reqs ! k) = Inl e0
             \<and> e = \<lparr>name = ''Error'', message = ''Batch delete failed: '' @ message e0\<rparr>
             \<and> (\<forall>j < k. \<not> isl (send w (s\<lparr>sent := sent s @ take j ?reqs\<rparr>) (?reqs ! j)))"
      unfolding Error_def by blast
  qed
  have H: "keys \<noteq> []
        \<and> (\<forall>k < length ?reqs. \<not> isl (send w (s\<lparr>sent := sent s @ take k ?reqs\<rparr>) (?reqs ! k)))
        \<longrightarrow> (\<exists>r s'. deleteFiles w (Some keys) s = (Inr r, s'))"
  proof (intro impI, elim conjE)
    assume ne: "keys \<noteq> []"
      and ok: "\<forall>k < length ?reqs. \<not> isl (send w (s\<lparr>sent := sent s @ take k ?reqs\<rparr>) (?reqs ! k))"
    from send_all_answered [OF ok] obtain outs s1 where "send_all w ?reqs s = (Inr outs, s1)"
      by blast
    then show "\<exists>r s'. deleteFiles w (Some keys) s = (Inr r, s')"
      by (simp add: deleteFiles_eq [OF ne])
  qed
  from A B C E F G H show ?thesis by (intro conjI)
qed

theorem deleteFiles_chunked_witness:
  "length many_keys = 2500
   \<and> many_keys \<noteq> []
   \<and> map length (chunks maxBatchSize many_keys) = [1000, 1000, 500]
   \<and> length (chunk_requests obliging_world many_keys) = 3
   \<and> \<not> isl (send obliging_world (state0\<lparr>sent := sent state0 @ take 0 (chunk_requests obliging_world many_keys)\<rparr>)
              (chunk_requests obliging_world many_keys ! 0))
   \<and> \<not> isl (send obliging_world (state0\<lparr>sent := sent state0 @ take 1 (chunk_requests obliging_world many_keys)\<rparr>)
              (chunk_requests obliging_world many_keys ! 1))
   \<and> \<not> isl (send obliging_world (state0\<lparr>sent := sent state0 @ take 2 (chunk_requests obliging_world many_keys)\<rparr>)
              (chunk_requests obliging_world many_keys ! 2))
   \<and> (\<exists>r s'. deleteFiles obliging_world (Some many_keys) state0 = (Inr r, s')
         \<and> sent s' = chunk_requests obliging_world many_keys
         \<and> map identifiers (sent s') = [1000, 1000, 500]
         \<and> length (results r) = 3
         \<and> deletedCount r = 2500)"
proof -
  let ?reqs = "chunk_requests obliging_world many_keys"
  let ?chunks = "chunks maxBatchSize many_keys"
  note T = deleteFiles_chunked [where keys = many_keys and w = obliging_world and s = state0]
  have h1: "length many_keys = 2500" by (simp add: many_keys_def)
  then have h2: "many_keys \<noteq> []" by auto
  from T h1 have c1: "map length ?chunks = [1000, 1000, 500]" by blast
  then have c3: "length ?chunks = 3" by (auto dest: arg_cong [where f = length])
  then have lr: "length ?reqs = 3" by (simp add: chunk_requests_def)
  have req: "?reqs ! k = DeleteObjectsCommand ''bucket'' (?chunks ! k) False" if "k < 3" for k
    using that c3 by (simp add: chunk_requests_def obliging_world_def)
  have ids: "map identifiers ?reqs = map length ?chunks"
    by (simp add: chunk_requests_def comp_def)
  have h3: "\<forall>k < length ?reqs.
         \<not> isl (send obliging_world (state0\<lparr>sent := sent state0 @ take k ?reqs\<rparr>) (?reqs ! k))"
    by (simp add: obliging_world_def)
  from T h2 h3 obtain r s' where run: "deleteFiles obliging_world (Some many_keys) state0 = (Inr r, s')"
    by blast
  with T have f1: "sent s' = sent state0 @ ?reqs"
    and f2: "length (results r) = length ?chunks"
    and f3: "\<forall>k < length ?reqs.
               send obliging_world (state0\<lparr>sent := sent state0 @ take k ?reqs\<rparr>) (?reqs ! k) =
                 Inr (results r ! k)"
    and f4: "deletedCount r =
             (\<Sum>x\<leftarrow>results r. case Deleted x of None \<Rightarrow> 0 | Some ds \<Rightarrow> length ds)"
    by blast+
  have each: "(case Deleted (results r ! k) of None \<Rightarrow> 0 | Some ds \<Rightarrow> length ds) = map length ?chunks ! k"
    if "k < 3" for k
  proof -
    from f3 that lr have "send obliging_world (state0\<lparr>sent := sent state0 @ take k ?reqs\<rparr>) (?reqs ! k) =
        Inr (results r ! k)" by simp
    then have "results r ! k = \<lparr>ContentLength = Some 42, Deleted = Some (?chunks ! k),
        Errors = None, ETag = None\<rparr>"
      unfolding req [OF that] by (simp add: obliging_world_def)
    then have "Deleted (results r ! k) = Some (?chunks ! k)" by simp
    with that c3 show ?thesis by simp
  qed
  have "map (\<lambda>x. case Deleted x of None \<Rightarrow> 0 | Some ds \<Rightarrow> length ds) (results r) = map length ?chunks"
    by (rule nth_equalityI) (simp_all add: f2 c3 each)
  with f4 c1 have g4: "deletedCount r = 2500" by simp
  from f1 have g1: "sent s' = ?reqs" by (simp add: state0_def)
  with ids c1 have g2: "map identifiers (sent s') = [1000, 1000, 500]" by simp
  from f2 c3 have g3: "length (results r) = 3" by simp
  have "\<exists>r s'. deleteFiles obliging_world (Some many_keys) state0 = (Inr r, s')
         \<and> sent s' = ?reqs
         \<and> map identifiers (sent s') = [1000, 1000, 500]
         \<and> length (results r) = 3
         \<and> deletedCount r = 2500"
    by (intro exI conjI) (rule run g1 g2 g3 g4)+
  moreover have "\<not> isl (send obliging_world (state0\<lparr>sent := sent state0 @ take k ?reqs\<rparr>) (?reqs ! k))" for k
    by (simp add: obliging_world_def)
  ultimately show ?thesis using h1 h2 c1 lr by (intro conjI)
qed

section \<open>Validation of the key\<close>

lemma uploadFile_invalid:
  "\<not> truthy key \<or> fileBuffer = None \<Longrightarrow>
     uploadFile w key fileBuffer ctype options s =
       (Inl (Error ''Upload failed: Key and file buffer are required''), s)"
  by (auto simp: uploadFile_def rethrow_def Error_def split: option.splits)

lemma downloadFile_invalid:
  "\<not> truthy key \<Longrightarrow>
     downloadFile w key options s = (Inl (Error ''Download failed: Key is required''), s)"
  by (simp add: downloadFile_def Error_def)

lemma deleteFile_invalid:
  "\<not> truthy key \<Longrightarrow> deleteFile w key s = (Inl (Error ''Delete failed: Key is required''), s)"
  by (simp add: deleteFile_def rethrow_def Error_def)

lemma getFileMetadata_invalid:
  "\<not> truthy key \<Longrightarrow>
     getFileMetadata w key s = (Inl (Error ''Get metadata failed: Key is required''), s)"
  by (simp add: getFileMetadata_def Error_def)

lemma not_truthy_iff: "\<not> truthy key \<longleftrightarrow> key = None \<or> key = Some []"
  by (auto simp: truthy_def split: option.splits)

text \<open>
  C3. With a key that is missing or empty, each of upload, download, delete and
  getMetadata rejects with an error that carries the validation message, and the state
  is the one before the call: no request was sent to the storage service. (The code has
  no error classes; every error is a plain \<^verbatim>\<open>Error\<close> told apart by its message.)
\<close>

theorem empty_key_rejected:
  assumes "key = None \<or> key = Some []"
  shows "uploadFile w key fileBuffer ctype uopts s =
           (Inl (Error ''Upload failed: Key and file buffer are required''), s)
       \<and> downloadFile w key dopts s = (Inl (Error ''Download failed: Key is required''), s)
       \<and> deleteFile w key s = (Inl (Error ''Delete failed: Key is required''), s)
       \<and> getFileMetadata w key s = (Inl (Error ''Get metadata failed: Key is required''), s)"
proof -
  from assms have "\<not> truthy key" by (simp add: not_truthy_iff)
  then show ?thesis
    by (simp add: uploadFile_invalid downloadFile_invalid deleteFile_invalid getFileMetadata_invalid)
qed

theorem empty_key_rejected_witness:
  "(None = (None :: string option) \<or> None = Some [])
   \<and> uploadFile obliging_world None (Some [1, 2, 3]) None no_upload_options state0 =
       (Inl (Error ''Upload failed: Key and file buffer are required''), state0)
   \<and> downloadFile obliging_world None no_download_options state0 =
       (Inl (Error ''Download failed: Key is required''), state0)
   \<and> deleteFile obliging_world None state0 = (Inl (Error ''Delete failed: Key is required''), state0)
   \<and> getFileMetadata obliging_world None state0 =
       (Inl (Error ''Get metadata failed: Key is required''), state0)
   \<and> sent state0 = []"
  using empty_key_rejected [of None obliging_world "Some [1, 2, 3]" None no_upload_options state0 no_download_options]
  by (simp add: state0_def)

lemma fileExists_invalid: "\<not> truthy key \<Longrightarrow> fileExists w key s = (False, s)"
  by (simp add: fileExists_def getFileMetadata_invalid)

lemma getFileSize_invalid: "\<not> truthy key \<Longrightarrow> getFileSize w key s = (Null, s)"
  by (simp add: getFileSize_def getFileMetadata_invalid)

text \<open>
  C2, as stated, fails: with a missing key \<^verbatim>\<open>fileExists\<close> resolves to
  \<^verbatim>\<open>false\<close> and \<^verbatim>\<open>getFileSize\<close> to \<^verbatim>\<open>null\<close> instead of failing, and
  \<^verbatim>\<open>generateSignedUrl\<close> does not look at the key: it builds the command without
  a key and hands it to the signer.
\<close>

theorem empty_key_counterexample:
  "fileExists obliging_world None state0 = (False, state0)
   \<and> getFileSize obliging_world None state0 = (Null, state0)
   \<and> signed (snd (generateSignedUrl obliging_world None (Some ''getObject'') (Some 3600) state0)) =
       [(bare_get ''bucket'' None, 3600)]"
  by (simp add: fileExists_invalid getFileSize_invalid truthy_def generateSignedUrl_def
      obliging_world_def state0_def command_for_def with_default_def rethrow_def Date_now_def isoNow_def
      toISOString_def max_time_def)

text \<open>
  C2, amended. With a key that is missing or empty, upload, download, delete and
  getMetadata each fail with their own validation message and send no request;
  batchDelete fails with its validation message and sends no request when its list of
  keys is missing or empty; exists resolves to false and getSize to null, both without
  sending a request.
\<close>

theorem empty_key_no_request:
  assumes "key = None \<or> key = Some []"
  shows "uploadFile w key fileBuffer ctype uopts s =
           (Inl \<lparr>name = ''Error'', message = ''Upload failed: Key and file buffer are required''\<rparr>, s)
       \<and> downloadFile w key dopts s =
           (Inl \<lparr>name = ''Error'', message = ''Download failed: Key is required''\<rparr>, s)
       \<and> deleteFile w key s =
           (Inl \<lparr>name = ''Error'', message = ''Delete failed: Key is required''\<rparr>, s)
       \<and> getFileMetadata w key s =
           (Inl \<lparr>name = ''Error'', message = ''Get metadata failed: Key is required''\<rparr>, s)
       \<and> deleteFiles w None s =
           (Inl \<lparr>name = ''Error'',
                 message = ''Batch delete failed: Keys array is required and must not be empty''\<rparr>, s)
       \<and> deleteFiles w (Some []) s =
           (Inl \<lparr>name = ''Error'',
                 message = ''Batch delete failed: Keys array is required and must not be empty''\<rparr>, s)
       \<and> fileExists w key s = (False, s)
       \<and> getFileSize w key s = (Null, s)"
proof -
  from assms have "\<not> truthy key" by (simp add: not_truthy_iff)
  then show ?thesis
    by (simp add: uploadFile_invalid downloadFile_invalid deleteFile_invalid getFileMetadata_invalid
        deleteFiles_empty fileExists_invalid getFileSize_invalid Error_def)
qed

theorem empty_key_no_request_witness:
  "(Some [] = (None :: string option) \<or> Some [] = Some ([] :: string))
   \<and> uploadFile obliging_world (Some []) (Some [1, 2, 3]) None no_upload_options state0 =
       (Inl \<lparr>name = ''Error'', message = ''Upload failed: Key and file buffer are required''\<rparr>, state0)
   \<and> deleteFile obliging_world (Some []) state0 =
       (Inl \<lparr>name = ''Error'', message = ''Delete failed: Key is required''\<rparr>, state0)
   \<and> deleteFiles obliging_world (Some []) state0 =
       (Inl \<lparr>name = ''Error'',
             message = ''Batch delete failed: Keys array is required and must not be empty''\<rparr>, state0)
   \<and> fileExists obliging_world (Some []) state0 = (False, state0)
   \<and> getFileSize obliging_world (Some []) state0 = (Null, state0)
   \<and> sent state0 = []"
  using empty_key_no_request [of "Some []" obliging_world "Some [1, 2, 3]" None no_upload_options state0 no_download_options]
  by (simp add: state0_def)

section \<open>Metadata, existence and size\<close>

lemma getFileMetadata_found:
  assumes "truthy key" and "send w s (HeadObjectCommand (BUCKET_NAME w) key) = Inr out"
  shows "getFileMetadata w key s =
           (Inr \<lparr>md_output = Some out, md_key = key, exists = True,
                 queriedAt = iso w (clock w (ticks s))\<rparr>,
            s\<lparr>sent := sent s @ [HeadObjectCommand (BUCKET_NAME w) key], ticks := Suc (ticks s)\<rparr>)"
  using assms by (simp add: getFileMetadata_def r2Client_send_def isoNow_def Date_now_def)

lemma getFileMetadata_absent:
  assumes "truthy key" and "send w s (HeadObjectCommand (BUCKET_NAME w) key) = Inl e"
    and "name e = ''NotFound'' \<or> name e = ''NoSuchKey''"
  shows "getFileMetadata w key s =
           (Inr \<lparr>md_output = None, md_key = key, exists = False,
                 queriedAt = iso w (clock w (ticks s))\<rparr>,
            s\<lparr>sent := sent s @ [HeadObjectCommand (BUCKET_NAME w) key], ticks := Suc (ticks s)\<rparr>)"
  using assms by (auto simp: getFileMetadata_def r2Client_send_def isoNow_def Date_now_def)

lemma getFileMetadata_failed:
  assumes "truthy key" and "send w s (HeadObjectCommand (BUCKET_NAME w) key) = Inl e"
    and "name e \<noteq> ''NotFound''" and "name e \<noteq> ''NoSuchKey''"
  shows "getFileMetadata w key s =
           (Inl (Error (''Get metadata failed: '' @ message e)),
            s\<lparr>sent := sent s @ [HeadObjectCommand (BUCKET_NAME w) key]\<rparr>)"
  using assms by (simp add: getFileMetadata_def r2Client_send_def)

lemma fileExists_failure:
  "getFileMetadata w key s = (Inl e, s') \<Longrightarrow> fileExists w key s = (False, s')"
  by (simp add: fileExists_def)

lemma getFileSize_failure:
  "getFileMetadata w key s = (Inl e, s') \<Longrightarrow> getFileSize w key s = (Null, s')"
  by (simp add: getFileSize_def)

text \<open>
  C4. When the service answers the metadata request for a key with a not-found error,
  \<^verbatim>\<open>getFileMetadata\<close> resolves with \<^verbatim>\<open>exists: false\<close>, \<^verbatim>\<open>fileExists\<close> resolves
  to false and \<^verbatim>\<open>getFileSize\<close> to null. Whenever \<^verbatim>\<open>getFileMetadata\<close> fails,
  and so whenever the key is invalid or the service rejects the request with any error,
  \<^verbatim>\<open>fileExists\<close> resolves to false and \<^verbatim>\<open>getFileSize\<close> to null: neither has a
  failing outcome. When the service answers with the object's metadata, \<^verbatim>\<open>fileExists\<close>
  resolves to true and \<^verbatim>\<open>getFileSize\<close> to the \<^verbatim>\<open>ContentLength\<close> of the answer.
\<close>

theorem metadata_exists_size:
  "(truthy key \<and> send w s (HeadObjectCommand (BUCKET_NAME w) key) = Inl e
      \<and> (name e = ''NotFound'' \<or> name e = ''NoSuchKey'') \<longrightarrow>
        (\<exists>md s'. getFileMetadata w key s = (Inr md, s') \<and> exists md = False \<and> md_key md = key)
        \<and> fst (fileExists w key s) = False
        \<and> fst (getFileSize w key s) = Null)
   \<and> (\<forall>err s'. getFileMetadata w key s = (Inl err, s') \<longrightarrow>
        fileExists w key s = (False, s') \<and> getFileSize w key s = (Null, s'))
   \<and> (\<not> truthy key \<or> isl (send w s (HeadObjectCommand (BUCKET_NAME w) key)) \<longrightarrow>
        fst (fileExists w key s) = False \<and> fst (getFileSize w key s) = Null)
   \<and> (truthy key \<and> send w s (HeadObjectCommand (BUCKET_NAME w) key) = Inr out \<longrightarrow>
        fst (fileExists w key s) = True \<and> fst (getFileSize w key s) = Value (ContentLength out))"
proof -
  have A: "truthy key \<and> send w s (HeadObjectCommand (BUCKET_NAME w) key) = Inl e
      \<and> (name e = ''NotFound'' \<or> name e = ''NoSuchKey'') \<longrightarrow>
        (\<exists>md s'. getFileMetadata w key s = (Inr md, s') \<and> exists md = False \<and> md_key md = key)
        \<and> fst (fileExists w key s) = False
        \<and> fst (getFileSize w key s) = Null"
    by (auto simp: getFileMetadata_absent fileExists_def getFileSize_def)
  have B: "\<forall>err s'. getFileMetadata w key s = (Inl err, s') \<longrightarrow>
        fileExists w key s = (False, s') \<and> getFileSize w key s = (Null, s')"
    by (simp add: fileExists_failure getFileSize_failure)
  have C: "\<not> truthy key \<or> isl (send w s (HeadObjectCommand (BUCKET_NAME w) key)) \<longrightarrow>
        fst (fileExists w key s) = False \<and> fst (getFileSize w key s) = Null"
  proof (intro impI)
    assume h: "\<not> truthy key \<or> isl (send w s (HeadObjectCommand (BUCKET_NAME w) key))"
    show "fst (fileExists w key s) = False \<and> fst (getFileSize w key s) = Null"
    proof (cases "truthy key")
      case False
      then show ?thesis by (simp add: fileExists_invalid getFileSize_invalid)
    next
      case True
      with h obtain x where x: "send w s (HeadObjectCommand (BUCKET_NAME w) key) = Inl x"
        by (cases "send w s (HeadObjectCommand (BUCKET_NAME w) key)") auto
      show ?thesis
      proof (cases "name x = ''NotFound'' \<or> name x = ''NoSuchKey''")
        case True
        with \<open>truthy key\<close> x show ?thesis
          by (simp add: getFileMetadata_absent fileExists_def getFileSize_def)
      next
        case False
        with \<open>truthy key\<close> x show ?thesis
          by (simp add: getFileMetadata_failed fileExists_def getFileSize_def)
      qed
    qed
  qed
  have D: "truthy key \<and> send w s (HeadObjectCommand (BUCKET_NAME w) key) = Inr out \<longrightarrow>
        fst (fileExists w key s) = True \<and> fst (getFileSize w key s) = Value (ContentLength out)"
    by (simp add: getFileMetadata_found fileExists_def getFileSize_def md_ContentLength_def)
  from A B C D show ?thesis by blast
qed

theorem metadata_exists_size_witness:
  "truthy (Some ''gone'')
   \<and> send sample_world state0 (HeadObjectCommand (BUCKET_NAME sample_world) (Some ''gone'')) =
       Inl \<lparr>name = ''NotFound'', message = ''missing''\<rparr>
   \<and> (\<exists>md s'. getFileMetadata sample_world (Some ''gone'') state0 = (Inr md, s') \<and> exists md = False)
   \<and> fst (fileExists sample_world (Some ''gone'') state0) = False
   \<and> fst (getFileSize sample_world (Some ''gone'') state0) = Null
   \<and> getFileMetadata sample_world (Some ''denied'') state0 =
       (Inl (Error ''Get metadata failed: no''),
        state0\<lparr>sent := [HeadObjectCommand ''bucket'' (Some ''denied'')]\<rparr>)
   \<and> fst (fileExists sample_world (Some ''denied'') state0) = False
   \<and> fst (getFileSize sample_world (Some ''denied'') state0) = Null
   \<and> truthy (Some ''present'')
   \<and> fst (fileExists sample_world (Some ''present'') state0) = True
   \<and> fst (getFileSize sample_world (Some ''present'') state0) = Value (Some 42)"
proof -
  have a1: "truthy (Some ''gone'')" and a2: "truthy (Some ''present'')" and a3: "truthy (Some ''denied'')"
    by (simp_all add: truthy_def)
  have b1: "send sample_world state0 (HeadObjectCommand (BUCKET_NAME sample_world) (Some ''gone'')) =
       Inl \<lparr>name = ''NotFound'', message = ''missing''\<rparr>"
    by (simp add: sample_world_def)
  have b2: "send sample_world state0 (HeadObjectCommand (BUCKET_NAME sample_world) (Some ''present'')) =
       Inr \<lparr>ContentLength = Some 42, Deleted = None, Errors = None, ETag = Some ''e1''\<rparr>"
    by (simp add: sample_world_def)
  have b3: "getFileMetadata sample_world (Some ''denied'') state0 =
       (Inl (Error ''Get metadata failed: no''),
        state0\<lparr>sent := [HeadObjectCommand ''bucket'' (Some ''denied'')]\<rparr>)"
    by (simp add: getFileMetadata_def a3 r2Client_send_def sample_world_def state0_def)
  from metadata_exists_size [of "Some ''gone''" sample_world state0 "\<lparr>name = ''NotFound'', message = ''missing''\<rparr>"]
    a1 b1
  have c1: "(\<exists>md s'. getFileMetadata sample_world (Some ''gone'') state0 = (Inr md, s') \<and> exists md = False)
   \<and> fst (fileExists sample_world (Some ''gone'') state0) = False
   \<and> fst (getFileSize sample_world (Some ''gone'') state0) = Null"
    by auto
  from metadata_exists_size [of "Some ''denied''" sample_world state0] b3
  have c2: "fst (fileExists sample_world (Some ''denied'') state0) = False
   \<and> fst (getFileSize sample_world (Some ''denied'') state0) = Null"
    by simp
  from metadata_exists_size [of "Some ''present''" sample_world state0 _
      "\<lparr>ContentLength = Some 42, Deleted = None, Errors = None, ETag = Some ''e1''\<rparr>"] a2 b2
  have c3: "fst (fileExists sample_world (Some ''present'') state0) = True
   \<and> fst (getFileSize sample_world (Some ''present'') state0) = Value (Some 42)"
    by simp
  from a1 a2 b1 b3 c1 c2 c3 show ?thesis by blast
qed

section \<open>Signed URLs\<close>





section \<open>Upload metadata\<close>

lemma uploadFile_sends:
  assumes "truthy key"
  shows "sent (snd (uploadFile w key (Some buf) ctype options s)) =
     sent s @ [PutObjectCommand
        \<lparr>Bucket = BUCKET_NAME w, Key = key, Body = Some buf, ContentType = ctype,
         CacheControl = Some (with_default (cacheControl options) ''public, max-age=31536000''),
         Metadata = Some (defaultMetadata (iso w (clock w (ticks s))) buf (with_default (metadata options) Map.empty)),
         ServerSideEncryption = Some (with_default (serverSideEncryption options) ''AES256''),
         StorageClass = Some (with_default (storageClass options) ''STANDARD'')\<rparr>]"
  using assms
  by (simp add: uploadFile_def rethrow_def isoNow_def Date_now_def r2Client_send_def
      split: sum.splits prod.splits)

lemma defaultMetadata_dom:
  "dom (defaultMetadata now buf md) = {''uploaded-at'', ''file-size'', ''upload-source''} \<union> dom md"
  by (auto simp: defaultMetadata_def)

lemma defaultMetadata_caller: "md k = Some v \<Longrightarrow> defaultMetadata now buf md k = Some v"
  by (simp add: defaultMetadata_def map_add_Some_iff)

lemma defaultMetadata_generated:
  "md ''uploaded-at'' = None \<Longrightarrow> defaultMetadata now buf md ''uploaded-at'' = Some now"
  "md ''file-size'' = None \<Longrightarrow> defaultMetadata now buf md ''file-size'' = Some (toString (length buf))"
  "md ''upload-source'' = None \<Longrightarrow> defaultMetadata now buf md ''upload-source'' = Some ''web-portal''"
  by (simp_all add: defaultMetadata_def map_add_def)

text \<open>
  C10. An upload that passes validation sends one \<^verbatim>\<open>PutObject\<close> request whose
  metadata holds the three generated entries \<^verbatim>\<open>uploaded-at\<close>, \<^verbatim>\<open>file-size\<close> and
  \<^verbatim>\<open>upload-source\<close> together with the caller's entries and nothing else. Every entry
  of the caller is stored with the caller's value, also under one of the three generated
  names; a generated name the caller does not use holds the time of the upload, the
  length of the payload in decimal, or \<^verbatim>\<open>web-portal\<close>.
\<close>

theorem upload_metadata:
  "truthy key \<longrightarrow>
     (\<exists>input md.
        sent (snd (uploadFile w key (Some buf) ctype options s)) = sent s @ [PutObjectCommand input]
        \<and> Key input = key \<and> Body input = Some buf
        \<and> Metadata input = Some md
        \<and> dom md = {''uploaded-at'', ''file-size'', ''upload-source''} \<union> dom (with_default (metadata options) Map.empty)
        \<and> (\<forall>k v. with_default (metadata options) Map.empty k = Some v \<longrightarrow> md k = Some v)
        \<and> (with_default (metadata options) Map.empty ''uploaded-at'' = None \<longrightarrow>
              md ''uploaded-at'' = Some (iso w (clock w (ticks s))))
        \<and> (with_default (metadata options) Map.empty ''file-size'' = None \<longrightarrow>
              md ''file-size'' = Some (toString (length buf)))
        \<and> (with_default (metadata options) Map.empty ''upload-source'' = None \<longrightarrow>
              md ''upload-source'' = Some ''web-portal''))"
proof
  assume k: "truthy key"
  let ?caller = "with_default (metadata options) Map.empty"
  let ?md = "defaultMetadata (iso w (clock w (ticks s))) buf ?caller"
  let ?input = "\<lparr>Bucket = BUCKET_NAME w, Key = key, Body = Some buf, ContentType = ctype,
         CacheControl = Some (with_default (cacheControl options) ''public, max-age=31536000''),
         Metadata = Some ?md,
         ServerSideEncryption = Some (with_default (serverSideEncryption options) ''AES256''),
         StorageClass = Some (with_default (storageClass options) ''STANDARD'')\<rparr>"
  have 1: "sent (snd (uploadFile w key (Some buf) ctype options s)) = sent s @ [PutObjectCommand ?input]"
    by (rule uploadFile_sends [OF k])
  have 2: "dom ?md = {''uploaded-at'', ''file-size'', ''upload-source''} \<union> dom ?caller"
    by (rule defaultMetadata_dom)
  have 3: "\<forall>k v. ?caller k = Some v \<longrightarrow> ?md k = Some v"
    by (simp add: defaultMetadata_caller)
  have 4: "?caller ''uploaded-at'' = None \<longrightarrow> ?md ''uploaded-at'' = Some (iso w (clock w (ticks s)))"
    "?caller ''file-size'' = None \<longrightarrow> ?md ''file-size'' = Some (toString (length buf))"
    "?caller ''upload-source'' = None \<longrightarrow> ?md ''upload-source'' = Some ''web-portal''"
    by (simp_all add: defaultMetadata_generated)
  show "\<exists>input md.
        sent (snd (uploadFile w key (Some buf) ctype options s)) = sent s @ [PutObjectCommand input]
        \<and> Key input = key \<and> Body input = Some buf
        \<and> Metadata input = Some md
        \<and> dom md = {''uploaded-at'', ''file-size'', ''upload-source''} \<union> dom (with_default (metadata options) Map.empty)
        \<and> (\<forall>k v. with_default (metadata options) Map.empty k = Some v \<longrightarrow> md k = Some v)
        \<and> (with_default (metadata options) Map.empty ''uploaded-at'' = None \<longrightarrow>
              md ''uploaded-at'' = Some (iso w (clock w (ticks s))))
        \<and> (with_default (metadata options) Map.empty ''file-size'' = None \<longrightarrow>
              md ''file-size'' = Some (toString (length buf)))
        \<and> (with_default (metadata options) Map.empty ''upload-source'' = None \<longrightarrow>
              md ''upload-source'' = Some ''web-portal'')"
    apply (rule exI [of _ ?input])
    apply (rule exI [of _ ?md])
    using 1 2 3 4 apply simp
    done
qed

theorem upload_metadata_witness:
  "truthy (Some ''a.txt'')
   \<and> with_default (metadata tagged_options) Map.empty ''upload-source'' = Some ''cli''
   \<and> with_default (metadata tagged_options) Map.empty ''file-size'' = None
   \<and> (\<exists>input md.
        sent (snd (uploadFile obliging_world (Some ''a.txt'') (Some [104, 105, 33]) None tagged_options state0)) =
          [PutObjectCommand input]
        \<and> Metadata input = Some md
        \<and> md ''upload-source'' = Some ''cli''
        \<and> md ''owner'' = Some ''ann''
        \<and> md ''file-size'' = Some ''3''
        \<and> md ''uploaded-at'' = Some ''T'')"
proof -
  have a: "truthy (Some ''a.txt'')" by (simp add: truthy_def)
  have b: "with_default (metadata tagged_options) Map.empty ''upload-source'' = Some ''cli''"
    "with_default (metadata tagged_options) Map.empty ''owner'' = Some ''ann''"
    "with_default (metadata tagged_options) Map.empty ''file-size'' = None"
    "with_default (metadata tagged_options) Map.empty ''uploaded-at'' = None"
    by (simp_all add: tagged_options_def no_upload_options_def with_default_def)
  have d: "iso obliging_world (clock obliging_world (ticks state0)) = ''T''" "sent state0 = []"
    by (simp_all add: obliging_world_def state0_def)
  have c: "toString (length [104, 105, 33 :: nat]) = ''3''"
    by (subst toString.simps) (simp add: digit_def)
  from upload_metadata [of "Some ''a.txt''" obliging_world "[104, 105, 33]" None tagged_options state0] a
  have "\<exists>input md.
        sent (snd (uploadFile obliging_world (Some ''a.txt'') (Some [104, 105, 33]) None tagged_options state0)) =
          sent state0 @ [PutObjectCommand input]
        \<and> Key input = Some ''a.txt'' \<and> Body input = Some [104, 105, 33]
        \<and> Metadata input = Some md
        \<and> dom md = {''uploaded-at'', ''file-size'', ''upload-source''} \<union> dom (with_default (metadata tagged_options) Map.empty)
        \<and> (\<forall>k v. with_default (metadata tagged_options) Map.empty k = Some v \<longrightarrow> md k = Some v)
        \<and> (with_default (metadata tagged_options) Map.empty ''uploaded-at'' = None \<longrightarrow>
              md ''uploaded-at'' = Some (iso obliging_world (clock obliging_world (ticks state0))))
        \<and> (with_default (metadata tagged_options) Map.empty ''file-size'' = None \<longrightarrow>
              md ''file-size'' = Some (toString (length [104, 105, 33 :: nat])))
        \<and> (with_default (metadata tagged_options) Map.empty ''upload-source'' = None \<longrightarrow>
              md ''upload-source'' = Some ''web-portal'')"
    by (rule mp)
  then have "\<exists>input md.
        sent (snd (uploadFile obliging_world (Some ''a.txt'') (Some [104, 105, 33]) None tagged_options state0)) =
          [PutObjectCommand input]
        \<and> Metadata input = Some md
        \<and> md ''upload-source'' = Some ''cli''
        \<and> md ''owner'' = Some ''ann''
        \<and> md ''file-size'' = Some ''3''
        \<and> md ''uploaded-at'' = Some ''T''"
  proof (elim exE conjE)
    fix input md
    assume o1: "sent (snd (uploadFile obliging_world (Some ''a.txt'') (Some [104, 105, 33]) None tagged_options state0)) =
          sent state0 @ [PutObjectCommand input]"
    and o2: "Metadata input = Some md"
    and o3: "\<forall>k v. with_default (metadata tagged_options) Map.empty k = Some v \<longrightarrow> md k = Some v"
    and o4: "with_default (metadata tagged_options) Map.empty ''uploaded-at'' = None \<longrightarrow>
              md ''uploaded-at'' = Some (iso obliging_world (clock obliging_world (ticks state0)))"
    and o5: "with_default (metadata tagged_options) Map.empty ''file-size'' = None \<longrightarrow>
              md ''file-size'' = Some (toString (length [104, 105, 33 :: nat]))"
    from o1 d(2) have e1: "sent (snd (uploadFile obliging_world (Some ''a.txt'') (Some [104, 105, 33]) None tagged_options state0)) =
          [PutObjectCommand input]"
      by simp
    from o3 have "with_default (metadata tagged_options) Map.empty ''upload-source'' = Some ''cli'' \<longrightarrow> md ''upload-source'' = Some ''cli''"
      by (elim allE)
    with b(1) have e2: "md ''upload-source'' = Some ''cli''" by (rule rev_mp)
    from o3 have "with_default (metadata tagged_options) Map.empty ''owner'' = Some ''ann'' \<longrightarrow> md ''owner'' = Some ''ann''"
      by (elim allE)
    with b(2) have e3: "md ''owner'' = Some ''ann''" by (rule rev_mp)
    from b(3) o5 have "md ''file-size'' = Some (toString (length [104, 105, 33 :: nat]))" by (rule rev_mp)
    then have e4: "md ''file-size'' = Some ''3''" unfolding c .
    from b(4) o4 have "md ''uploaded-at'' = Some (iso obliging_world (clock obliging_world (ticks state0)))"
      by (rule rev_mp)
    then have e5: "md ''uploaded-at'' = Some ''T''" unfolding d(1) .
    show ?thesis
      by (intro exI conjI) (rule e1 o2 e2 e3 e4 e5)+
  qed
  with a b(1) b(3) show ?thesis by (intro conjI)
qed

section \<open>Loading state\<close>

text \<open>
  C9. Without a target, \<^verbatim>\<open>setLoading\<close> returns the page as it was, for activation and
  for deactivation alike.
\<close>

theorem setLoading_null: "setLoading textOf None isLoading p = p"
  by (simp add: setLoading_def)

text \<open>
  The capture of the original content works for a target that has content: once
  captured, the content stays in the dataset through any sequence of toggles, and a
  deactivation assigns it again. What the target then reads is the browser's
  serialisation of the captured text, which is the captured text itself whenever it
  survives being parsed and serialised again.
\<close>

lemma setLoading_element_first:
  assumes "originalHTML e = None" and "innerHTML e \<noteq> []"
  shows "originalHTML (setLoading_element textOf b f e) = Some (innerHTML e)"
  using assms by (simp add: setLoading_element_def set_innerHTML_def or_else_def truthy_def Let_def)

lemma setLoading_element_keeps:
  assumes "originalHTML e = Some h" and "h \<noteq> []"
  shows "originalHTML (setLoading_element textOf b f e) = Some h"
  using assms by (simp add: setLoading_element_def set_innerHTML_def or_else_def truthy_def Let_def)

lemma setLoading_element_restores:
  assumes "originalHTML e = Some h" and "h \<noteq> []"
  shows "innerHTML (setLoading_element textOf b False e) = serialised b h"
  using assms by (simp add: setLoading_element_def set_innerHTML_def or_else_def truthy_def Let_def)

lemma setLoading_elements:
  "elements (setLoading textOf (Some r) f p) r = setLoading_element textOf (browser p) f (elements p r)"
  by (simp add: setLoading_def)

lemma setLoading_browser: "browser (setLoading textOf button f p) = browser p"
  by (simp add: setLoading_def split: option.splits)

lemma toggle_all_browser: "browser (toggle_all textOf button fs p) = browser p"
  by (induction fs arbitrary: p) (simp_all add: setLoading_browser)

lemma toggle_all_keeps:
  assumes "originalHTML (elements p r) = Some h" and "h \<noteq> []"
  shows "originalHTML (elements (toggle_all textOf (Some r) fs p) r) = Some h"
  using assms
proof (induction fs arbitrary: p)
  case Nil
  then show ?case by simp
next
  case (Cons f fs)
  from Cons.prems have "originalHTML (elements (setLoading textOf (Some r) f p) r) = Some h"
    by (simp add: setLoading_elements setLoading_element_keeps)
  from Cons.IH [OF this Cons.prems(2)] show ?case by simp
qed

lemma setLoading_restores:
  assumes "originalHTML (elements p r) = None" and "innerHTML (elements p r) \<noteq> []"
  shows "innerHTML (elements
           (setLoading textOf (Some r) False
              (toggle_all textOf (Some r) fs (setLoading textOf (Some r) True p))) r) =
         serialised (browser p) (innerHTML (elements p r))"
proof -
  let ?h = "innerHTML (elements p r)"
  let ?q = "toggle_all textOf (Some r) fs (setLoading textOf (Some r) True p)"
  have "originalHTML (elements (setLoading textOf (Some r) True p) r) = Some ?h"
    using assms by (simp add: setLoading_elements setLoading_element_first)
  then have "originalHTML (elements ?q r) = Some ?h"
    using assms(2) by (rule toggle_all_keeps)
  moreover have "browser ?q = browser p"
    by (simp add: toggle_all_browser setLoading_browser)
  ultimately show ?thesis
    using assms(2) by (simp add: setLoading_elements setLoading_element_restores)
qed

text \<open>
  C7 fails for a target without content. The first activation stores the empty string as
  the original content; the deactivation reads the stored value with \<^verbatim>\<open>||\<close>, takes
  the empty string for missing, and captures the busy indicator instead. After one
  activation and one deactivation, and also after three activations and one deactivation,
  button 1 of \<open>page0\<close> shows the busy indicator, not its empty content.
\<close>

theorem setLoading_empty_content_lost:
  "innerHTML (elements page0 1) = []
   \<and> originalHTML (elements page0 1) = None
   \<and> innerHTML (elements (setLoading textOf (Some 1) False (setLoading textOf (Some 1) True page0)) 1) =
       spinner @ '' Processing...''
   \<and> innerHTML (elements
        (setLoading textOf (Some 1) False
           (toggle_all textOf (Some 1) [True, True] (setLoading textOf (Some 1) True page0))) 1) =
       spinner @ '' Processing...''"
  by (simp add: page0_def createElement_def sample_browser_def setLoading_def setLoading_element_def
      set_innerHTML_def or_else_def truthy_def Let_def spinner_def icon_marker_def)

section \<open>Notifications\<close>






lemma tokens_words:
  "\<forall>c \<in> set acc. \<not> ascii_whitespace c \<Longrightarrow> t \<in> set (tokens acc cs) \<Longrightarrow> word t"
proof (induction cs arbitrary: acc)
  case Nil
  then show ?case by (auto simp: word_def split: if_splits)
next
  case (Cons c cs)
  show ?case
  proof (cases "ascii_whitespace c")
    case True
    with Cons.prems have "t = acc \<and> acc \<noteq> [] \<or> t \<in> set (tokens [] cs)"
      by (auto split: if_splits)
    then show ?thesis
      using Cons.prems(1) Cons.IH [of "[]"] by (auto simp: word_def)
  next
    case False
    with Cons.prems have "t \<in> set (tokens (acc @ [c]) cs)" by simp
    moreover from False Cons.prems(1) have "\<forall>d \<in> set (acc @ [c]). \<not> ascii_whitespace d" by simp
    ultimately show ?thesis by (rule Cons.IH [rotated])
  qed
qed

lemma classTokens_words: "t \<in> set (classTokens cn) \<Longrightarrow> word t"
  unfolding classTokens_def by (rule tokens_words [of "[]"]) simp_all

lemma tokens_one:
  "\<forall>c \<in> set t. \<not> ascii_whitespace c \<Longrightarrow> acc @ t \<noteq> [] \<Longrightarrow> tokens acc t = [acc @ t]"
  by (induction t arbitrary: acc) auto

lemma space_is_whitespace: "ascii_whitespace (CHR '' '')"
  by (simp add: ascii_whitespace_def)

lemma tokens_first:
  "\<forall>c \<in> set t. \<not> ascii_whitespace c \<Longrightarrow> acc @ t \<noteq> [] \<Longrightarrow>
     tokens acc (t @ CHR '' '' # rest) = (acc @ t) # tokens [] rest"
  by (induction t arbitrary: acc) (auto simp: space_is_whitespace)

lemma tokens_unwords:
  "list_all word ts \<Longrightarrow> tokens [] (unwords ts) = ts"
proof (induction ts rule: unwords.induct)
  case 1
  then show ?case by simp
next
  case (2 t)
  then show ?case by (simp add: word_def tokens_one)
next
  case (3 t u ts)
  then have "tokens [] (t @ CHR '' '' # unwords (u # ts)) = t # tokens [] (unwords (u # ts))"
    using tokens_first [of t "[]"] by (simp add: word_def)
  with 3 show ?case by simp
qed

lemma classTokens_unwords: "list_all word ts \<Longrightarrow> classTokens (unwords ts) = ts"
  by (simp add: classTokens_def tokens_unwords)

lemma set_dedup: "set (dedup ts) = set ts"
  by (induction ts rule: dedup.induct) auto

lemma classTokens_add:
  "word c \<Longrightarrow> set (classTokens (classList_add c cn)) = insert c (set (classTokens cn))"
proof -
  assume c: "word c"
  have "list_all word (dedup (classTokens cn))"
    by (simp add: list_all_iff set_dedup classTokens_words)
  with c have "list_all word (if c \<in> set (classTokens cn) then dedup (classTokens cn)
              else dedup (classTokens cn) @ [c])"
    by simp
  then show ?thesis
    unfolding classList_add_def by (simp add: classTokens_unwords set_dedup insert_absorb)
qed

lemma classTokens_remove:
  "set (classTokens (classList_remove c cn)) = set (classTokens cn) - {c}"
proof -
  have "list_all word (filter (\<lambda>t. t \<noteq> c) (dedup (classTokens cn)))"
    by (auto simp: list_all_iff set_dedup classTokens_words)
  then show ?thesis
    unfolding classList_remove_def by (auto simp: classTokens_unwords set_dedup)
qed

lemma setLoading_element_class:
  "c \<noteq> ''btn-loading'' \<Longrightarrow>
     c \<in> set (classTokens (className (setLoading_element textOf b f e))) \<longleftrightarrow>
     c \<in> set (classTokens (className e))"
  by (auto simp: setLoading_element_def set_innerHTML_def Let_def classTokens_add classTokens_remove
      word_def ascii_whitespace_def)

lemma notification_class_token: "''notification'' \<in> set (classTokens (notification_class type))"
  by (simp add: classTokens_def notification_class_def ascii_whitespace_def)

lemma forest_count_Nil [simp]: "forest_count c [] = 0"
  by (simp add: forest_count_def)

lemma forest_count_Cons [simp]:
  "forest_count c (Node cn kids # rest) =
     (if c \<in> set (classTokens cn) then 1 else 0) + forest_count c kids + forest_count c rest"
  by (simp add: forest_count_def)

lemma remove_first_less:
  "0 < forest_count c f \<Longrightarrow> forest_count c (remove_first c f) < forest_count c f"
  by (induction c f rule: remove_first.induct) auto

lemma sum_list_pick:
  fixes f :: "nat \<Rightarrow> nat"
  assumes "distinct xs" and "r \<in> set xs"
  shows "sum_list (map f xs) = f r + sum_list (map f (filter (\<lambda>x. x \<noteq> r) xs))"
  using assms
proof (induction xs)
  case Nil
  then show ?case by simp
next
  case (Cons a xs)
  show ?case
  proof (cases "a = r")
    case True
    with Cons.prems have "r \<notin> set xs" by simp
    then have "filter (\<lambda>x. x \<noteq> r) xs = xs" by (auto simp: filter_id_conv)
    with True show ?thesis by simp
  next
    case False
    with Cons show ?thesis by simp
  qed
qed

lemma count_class_zero:
  "count_class p c = 0 \<longleftrightarrow>
     (\<forall>r \<in> set (attached p). \<not> has_class p c r \<and> forest_count c (inside (elements p r)) = 0)"
  by (auto simp: count_class_def)

lemma count_class_remove_le: "count_class (remove_element r p) c \<le> count_class p c"
  unfolding count_class_def remove_element_def
  by (simp add: has_class_def sum_list_filter_le_nat)

lemma count_class_mono:
  assumes "attached q = attached p"
    and "\<And>r. r \<in> set (attached p) \<Longrightarrow> has_class q c r = has_class p c r"
    and "\<And>r. r \<in> set (attached p) \<Longrightarrow>
           forest_count c (inside (elements q r)) \<le> forest_count c (inside (elements p r))"
  shows "count_class q c \<le> count_class p c"
  unfolding count_class_def assms(1)
  by (rule sum_list_mono) (simp add: assms(2,3))

text \<open>
  On a tidy page, removing what \<^verbatim>\<open>querySelector\<close> finds leaves no notification
  element in the document.
\<close>

lemma clear_existing:
  assumes "tidy p"
  defines "q \<equiv> (case querySelector_class p ''notification'' of
                  None \<Rightarrow> p | Some existing \<Rightarrow> remove_found ''notification'' existing p)"
  shows "count_class q ''notification'' = 0" and "distinct (attached q)"
    and "list_all (\<lambda>r. r < nextRef p) (attached q)" and "nextRef q = nextRef p"
    and "browser q = browser p" and "set (attached q) \<subseteq> set (attached p)"
    and "\<And>r. r \<notin> set (attached p) \<Longrightarrow> elements q r = elements p r"
    and "timers q = timers p" and "styleIds q = styleIds p"
proof -
  let ?c = "''notification''"
  let ?own = "\<lambda>r. (if has_class p ?c r then 1 else 0) + forest_count ?c (inside (elements p r))"
  let ?P = "\<lambda>r. has_class p ?c r \<or> 0 < forest_count ?c (inside (elements p r))"
  from assms(1) have d: "distinct (attached p)" and b: "list_all (\<lambda>r. r < nextRef p) (attached p)"
    and le: "count_class p ?c \<le> 1"
    by (simp_all add: tidy_def)
  show "count_class q ?c = 0"
  proof (cases "List.find ?P (attached p)")
    case None
    then have "\<forall>r \<in> set (attached p). \<not> ?P r" by (simp add: find_None_iff)
    then have "count_class p ?c = 0" by (simp add: count_class_zero)
    with None show ?thesis by (simp add: q_def querySelector_class_def)
  next
    case (Some r)
    then have r: "r \<in> set (attached p)" and Pr: "?P r"
      by (auto simp: find_Some_iff)
    have split: "count_class p ?c = ?own r + sum_list (map ?own (filter (\<lambda>x. x \<noteq> r) (attached p)))"
      unfolding count_class_def by (rule sum_list_pick [OF d r])
    from Pr have "1 \<le> ?own r" by auto
    moreover from split le
    have "?own r + sum_list (map ?own (filter (\<lambda>x. x \<noteq> r) (attached p))) \<le> 1"
      by (simp only:)
    ultimately have own: "?own r = 1"
      and rest: "sum_list (map ?own (filter (\<lambda>x. x \<noteq> r) (attached p))) = 0"
      by linarith+
    show ?thesis
    proof (cases "has_class p ?c r")
      case True
      with Some have "q = remove_element r p" by (simp add: q_def querySelector_class_def)
      with rest show ?thesis
        by (simp add: count_class_def remove_element_def has_class_def)
    next
      case False
      let ?e = "(elements p r)\<lparr>inside := remove_first ?c (inside (elements p r)),
          innerHTML := cut (browser p) ?c (innerHTML (elements p r))\<rparr>"
      from False Some have q: "q = p\<lparr>elements := (elements p)(r := ?e)\<rparr>"
        by (simp add: q_def querySelector_class_def)
      from False own have one: "forest_count ?c (inside (elements p r)) = 1" by simp
      then have "forest_count ?c (remove_first ?c (inside (elements p r))) < 1"
        using remove_first_less [of ?c "inside (elements p r)"] by simp
      then have gone: "forest_count ?c (remove_first ?c (inside (elements p r))) = 0" by simp
      let ?own' = "\<lambda>x. (if has_class q ?c x then 1 else 0) + forest_count ?c (inside (elements q x))"
      have "count_class q ?c = ?own' r + sum_list (map ?own' (filter (\<lambda>x. x \<noteq> r) (attached q)))"
        unfolding count_class_def using d r by (intro sum_list_pick) (simp_all add: q)
      also have "?own' r = 0" using False gone by (simp add: q has_class_def)
      also have "sum_list (map ?own' (filter (\<lambda>x. x \<noteq> r) (attached q))) =
          sum_list (map ?own (filter (\<lambda>x. x \<noteq> r) (attached p)))"
        by (rule arg_cong [where f = sum_list]) (auto simp: q has_class_def)
      finally show ?thesis using rest by simp
    qed
  qed
  show "distinct (attached q)"
    using d by (auto simp: q_def querySelector_class_def remove_element_def split: option.splits)
  show "list_all (\<lambda>r. r < nextRef p) (attached q)"
    using b by (auto simp: q_def querySelector_class_def remove_element_def list_all_iff split: option.splits)
  show "nextRef q = nextRef p"
    by (auto simp: q_def querySelector_class_def remove_element_def split: option.splits)
  show "browser q = browser p"
    by (auto simp: q_def querySelector_class_def remove_element_def split: option.splits)
  show "set (attached q) \<subseteq> set (attached p)"
    by (auto simp: q_def querySelector_class_def remove_element_def split: option.splits)
  show "timers q = timers p"
    by (auto simp: q_def querySelector_class_def remove_element_def split: option.splits)
  show "styleIds q = styleIds p"
    by (auto simp: q_def querySelector_class_def remove_element_def split: option.splits)
  show "elements q r = elements p r" if "r \<notin> set (attached p)" for r
    using that
    by (auto simp: q_def querySelector_class_def remove_element_def find_Some_iff split: option.splits)
qed

lemma tidy_init: "tidy p \<Longrightarrow> tidy (initNotificationStyles p)"
  by (simp add: tidy_def initNotificationStyles_def count_class_def has_class_def)

text \<open>What \<^verbatim>\<open>showNotification\<close> does to a tidy page.\<close>

lemma showNotification_tidy:
  assumes "tidy p"
  shows "fst (showNotification msg type duration p) = nextRef p"
    and "nextRef (snd (showNotification msg type duration p)) = Suc (nextRef p)"
    and "browser (snd (showNotification msg type duration p)) = browser p"
    and "elements (snd (showNotification msg type duration p)) (nextRef p) =
           set_innerHTML (browser p) (notification_html (browser p) msg type)
             (createElement\<lparr>className := notification_class type\<rparr>)"
    and "count_class (snd (showNotification msg type duration p)) ''notification'' =
           1 + forest_count ''notification'' (parseHTML (browser p) (notification_html (browser p) msg type))"
    and "notifications (snd (showNotification msg type duration p)) = [nextRef p]"
    and "distinct (attached (snd (showNotification msg type duration p)))"
    and "list_all (\<lambda>r. r < Suc (nextRef p)) (attached (snd (showNotification msg type duration p)))"
    and "\<And>r. r \<noteq> nextRef p \<Longrightarrow> forest_count ''notification'' (inside (elements p r)) = 0 \<Longrightarrow>
           elements (snd (showNotification msg type duration p)) r = elements p r"
    and "\<And>r. r \<noteq> nextRef p \<Longrightarrow> has_class p ''notification'' r \<Longrightarrow>
           r \<notin> set (attached (snd (showNotification msg type duration p)))"
proof -
  let ?c = "''notification''"
  define p1 where "p1 = initNotificationStyles p"
  define q where "q = (case querySelector_class p1 ?c of
                  None \<Rightarrow> p1 | Some existing \<Rightarrow> remove_found ?c existing p1)"
  let ?n = "nextRef p"
  let ?new = "set_innerHTML (browser p) (notification_html (browser p) msg type)
             (createElement\<lparr>className := notification_class type\<rparr>)"
  let ?p' = "q\<lparr>nextRef := Suc ?n, elements := (elements q)(?n := ?new),
            attached := attached q @ [?n], timers := timers q @ [(duration, FadeOut ?n)]\<rparr>"
  have p1: "attached p1 = attached p" "elements p1 = elements p" "nextRef p1 = nextRef p"
    "browser p1 = browser p"
    by (simp_all add: p1_def initNotificationStyles_def)
  from assms have t1: "tidy p1" unfolding p1_def by (rule tidy_init)
  note cq = clear_existing [OF t1, folded q_def]
  have nq: "nextRef q = ?n" and bq: "browser q = browser p"
    using cq(4,5) p1 by simp_all
  have "showNotification msg type duration p =
      (nextRef q,
       q\<lparr>nextRef := Suc (nextRef q),
         elements := (elements q)(nextRef q :=
           set_innerHTML (browser q) (notification_html (browser q) msg type)
             (createElement\<lparr>className := notification_class type\<rparr>)),
         attached := attached q @ [nextRef q],
         timers := timers q @ [(duration, FadeOut (nextRef q))]\<rparr>)"
    unfolding showNotification_def Let_def q_def p1_def by simp
  then have res: "showNotification msg type duration p = (?n, ?p')"
    unfolding nq bq .
  have fresh: "?n \<notin> set (attached q)"
    using cq(3) p1 by (auto simp: list_all_iff)
  have same: "has_class ?p' ?c r = has_class q ?c r"
    "inside (elements ?p' r) = inside (elements q r)" if "r \<in> set (attached q)" for r
    using that fresh by (auto simp: has_class_def)
  have zero: "\<not> has_class q ?c r \<and> forest_count ?c (inside (elements q r)) = 0"
    if "r \<in> set (attached q)" for r
    using cq(1) that by (simp add: count_class_zero)
  have new: "has_class ?p' ?c ?n"
    by (simp add: has_class_def set_innerHTML_def notification_class_token)
  have inew: "inside (elements ?p' ?n) = parseHTML (browser p) (notification_html (browser p) msg type)"
    by (simp add: set_innerHTML_def)
  have old0: "(\<Sum>r\<leftarrow>attached q. (if has_class ?p' ?c r then 1 else 0) +
        forest_count ?c (inside (elements ?p' r))) = (0::nat)"
    using same zero by (simp add: sum_list_eq_0_iff del: fun_upd_apply)
  show "fst (showNotification msg type duration p) = nextRef p" by (simp add: res)
  show "nextRef (snd (showNotification msg type duration p)) = Suc (nextRef p)" by (simp add: res)
  show "browser (snd (showNotification msg type duration p)) = browser p" by (simp add: res bq)
  show "elements (snd (showNotification msg type duration p)) (nextRef p) = ?new" by (simp add: res)
  show "count_class (snd (showNotification msg type duration p)) ?c =
           1 + forest_count ?c (parseHTML (browser p) (notification_html (browser p) msg type))"
    unfolding res snd_conv count_class_def
    using old0 new inew by (simp del: fun_upd_apply)
  have "filter (has_class ?p' ?c) (attached q) = []"
    using same zero by (simp add: filter_empty_conv)
  with new show "notifications (snd (showNotification msg type duration p)) = [nextRef p]"
    by (simp add: res notifications_def)
  show "distinct (attached (snd (showNotification msg type duration p)))"
    using cq(2) fresh by (simp add: res)
  show "list_all (\<lambda>r. r < Suc (nextRef p)) (attached (snd (showNotification msg type duration p)))"
    using cq(3) p1 by (auto simp: res list_all_iff)
  show "elements (snd (showNotification msg type duration p)) r = elements p r"
    if "r \<noteq> nextRef p" "forest_count ?c (inside (elements p r)) = 0" for r
  proof -
    have "elements q r = elements p1 r"
      using that(2) p1
      by (auto simp: q_def querySelector_class_def remove_element_def find_Some_iff split: option.splits)
    with that(1) p1 show ?thesis by (simp add: res)
  qed
  show "r \<notin> set (attached (snd (showNotification msg type duration p)))"
    if "r \<noteq> nextRef p" "has_class p ?c r" for r
  proof
    assume "r \<in> set (attached (snd (showNotification msg type duration p)))"
    with that(1) have rq: "r \<in> set (attached q)" by (simp add: res)
    with zero have "\<not> has_class q ?c r" by blast
    moreover have "className (elements q r) = className (elements p1 r)"
      by (auto simp: q_def querySelector_class_def remove_element_def split: option.splits)
    ultimately show False using that(2) p1 by (simp add: has_class_def)
  qed
qed

lemma showNotification_stays_tidy:
  assumes "tidy p" and "plain (browser p) msg type"
  shows "tidy (snd (showNotification msg type duration p))"
  unfolding tidy_def
  using showNotification_tidy(2,5,7,8) [OF assms(1), where msg = msg and type = type and duration = duration] assms(2)
  by (simp add: plain_def)

lemma tidy_remove: "tidy p \<Longrightarrow> tidy (remove_element r p)"
proof -
  assume t: "tidy p"
  have "count_class (remove_element r p) ''notification'' \<le> count_class p ''notification''"
    by (rule count_class_remove_le)
  moreover from t have "count_class p ''notification'' \<le> 1" by (simp add: tidy_def)
  ultimately have "count_class (remove_element r p) ''notification'' \<le> 1" by (rule order_trans)
  with t show ?thesis
    by (simp add: tidy_def remove_element_def list_all_iff)
qed

lemma tidy_fire: "tidy p \<Longrightarrow> tidy (fire_timer k p)"
proof -
  assume t: "tidy p"
  define q where "q = p\<lparr>timers := take k (timers p) @ drop (Suc k) (timers p)\<rparr>"
  have "count_class q ''notification'' = count_class p ''notification''"
    by (simp add: q_def count_class_def has_class_def)
  with t have tq: "tidy q" by (simp add: tidy_def q_def)
  have "tidy (run_callback cb q)" for cb
  proof (cases cb)
    case (FadeOut n)
    let ?q' = "q\<lparr>elements := (elements q)(n := (elements q n)\<lparr>animation := ''slideOutNotification 0.3s ease forwards''\<rparr>),
          timers := timers q @ [(300, FinalRemove n)]\<rparr>"
    have "count_class ?q' ''notification'' \<le> count_class q ''notification''"
      by (rule count_class_mono) (simp_all add: has_class_def)
    moreover from tq have "count_class q ''notification'' \<le> 1" by (simp add: tidy_def)
    ultimately have "count_class ?q' ''notification'' \<le> 1" by (rule order_trans)
    with tq FadeOut show ?thesis by (simp add: tidy_def)
  next
    case (FinalRemove n)
    with tq show ?thesis by (simp add: tidy_remove)
  qed
  with t show ?thesis by (simp add: fire_timer_def q_def)
qed

lemma tidy_setLoading:
  assumes "tidy p"
    and "forest_count ''notification'' (inside (elements (setLoading textOf (Some b) f p) b)) = 0"
  shows "tidy (setLoading textOf (Some b) f p)"
proof -
  have "count_class (setLoading textOf (Some b) f p) ''notification'' \<le> count_class p ''notification''"
  proof (rule count_class_mono)
    show "attached (setLoading textOf (Some b) f p) = attached p" by (simp add: setLoading_def)
    show "has_class (setLoading textOf (Some b) f p) ''notification'' r = has_class p ''notification'' r" for r
      by (simp add: setLoading_def has_class_def setLoading_element_class)
    show "forest_count ''notification'' (inside (elements (setLoading textOf (Some b) f p) r))
        \<le> forest_count ''notification'' (inside (elements p r))" for r
    proof (cases "r = b")
      case True
      with assms(2) show ?thesis by simp
    next
      case False
      then show ?thesis by (simp add: setLoading_def)
    qed
  qed
  moreover from assms(1) have "count_class p ''notification'' \<le> 1" by (simp add: tidy_def)
  ultimately have "count_class (setLoading textOf (Some b) f p) ''notification'' \<le> 1"
    by (rule order_trans)
  with assms(1) show ?thesis by (simp add: tidy_def setLoading_def)
qed

lemma reachable_tidy: "reachable p \<Longrightarrow> tidy p"
proof (induction rule: reachable.induct)
  case (start p)
  then show ?case by (simp add: tidy_def)
next
  case (shown p msg type duration)
  then show ?case by (simp add: showNotification_stays_tidy)
next
  case (fired p k)
  from fired.IH show ?case by (rule tidy_fire)
next
  case (closed p n)
  then show ?case by (simp add: click_close_def tidy_remove)
next
  case (toggled p textOf b isLoading)
  from toggled.IH toggled.hyps(2) show ?case by (rule tidy_setLoading)
qed


lemma notifications_cong:
  assumes "attached q = attached p"
    and "\<And>r. r \<in> set (attached p) \<Longrightarrow> has_class q ''notification'' r = has_class p ''notification'' r"
  shows "notifications q = notifications p"
  unfolding notifications_def using assms by (auto intro: filter_cong)

text \<open>The sample browser finds no notification element in the markup used below.\<close>

lemma sample_attributes:
  "class_attributes None (notification_html sample_browser ''first'' ''success'') =
     [''notification-content'', ''fas fa-check-circle notification-icon'', ''notification-close'']"
  "class_attributes None (notification_html sample_browser ''second'' ''error'') =
     [''notification-content'', ''fas fa-exclamation-triangle notification-icon'', ''notification-close'']"
  "class_attributes None (notification_html sample_browser ''X'' ''error'') =
     [''notification-content'', ''fas fa-exclamation-triangle notification-icon'', ''notification-close'']"
  "class_attributes None
     (notification_html sample_browser ''An unexpected error occurred. Please try again.'' ''error'') =
     [''notification-content'', ''fas fa-exclamation-triangle notification-icon'', ''notification-close'']"
  "class_attributes None (notification_html sample_browser nested_message ''success'') =
     [''notification-content'', ''fas fa-check-circle notification-icon'', ''notification'',
      ''notification-close'']"
  "class_attributes None (spinner @ '' Processing...'') = [''fas fa-spinner fa-spin'']"
  "class_attributes None ''Save'' = []"
  by (simp_all add: notification_html_def getNotificationIcon_def nl_def class_marker_def
      nested_message_def spinner_def)

lemma sample_tokens:
  "classTokens ''notification-content'' = [''notification-content'']"
  "classTokens ''fas fa-check-circle notification-icon'' = [''fas'', ''fa-check-circle'', ''notification-icon'']"
  "classTokens ''fas fa-exclamation-triangle notification-icon'' =
     [''fas'', ''fa-exclamation-triangle'', ''notification-icon'']"
  "classTokens ''notification-close'' = [''notification-close'']"
  "classTokens ''notification'' = [''notification'']"
  "classTokens ''fas fa-spinner fa-spin'' = [''fas'', ''fa-spinner'', ''fa-spin'']"
  "classTokens ''btn btn-primary'' = [''btn'', ''btn-primary'']"
  "classTokens ''icon-btn'' = [''icon-btn'']"
  by (simp_all add: classTokens_def ascii_whitespace_def)

lemma sample_plain:
  "plain sample_browser ''first'' ''success''"
  "plain sample_browser ''second'' ''error''"
  "plain sample_browser ''X'' ''error''"
  "plain sample_browser ''An unexpected error occurred. Please try again.'' ''error''"
  unfolding plain_def
  by (simp_all add: sample_browser_def sample_attributes [unfolded sample_browser_def] sample_tokens)


lemma reachable_page0: "reachable page0"
proof (rule reachable.start)
  show "distinct (attached page0)" by (simp add: page0_def)
  show "list_all (\<lambda>r. r < nextRef page0) (attached page0)" by (simp add: page0_def)
  show "count_class page0 ''notification'' = 0"
    by (simp add: count_class_def page0_def createElement_def has_class_def sample_tokens)
qed



section \<open>Fetching with feedback\<close>

text \<open>
  The \<^verbatim>\<open>finally\<close> block clears the \<^verbatim>\<open>disabled\<close> flag of the bound button on
  every outcome of the call.
\<close>

lemma fetchWithFeedback_releases:
  "disabled (elements (snd (fetchWithFeedback textOf fetch endpoint options (Some b) successMessage p)) b) = False"
  by (simp add: fetchWithFeedback_def setLoading_def setLoading_element_def set_innerHTML_def Let_def
      split: prod.splits)

lemma fetch_refused:
  "fetch_try (refusing_endpoint u init) successMessage p =
     (Inl (Error ''X''), snd (showNotification ''X'' ''error'' 5000 p))"
  by (simp add: fetch_try_def refusing_endpoint_def or_else_def show_default_def with_default_def)

lemma fetch_catch_X:
  "fetch_catch (Inl (Error ''X''), p) =
     (Inl (Error ''X''),
      snd (showNotification ''An unexpected error occurred. Please try again.'' ''error'' 5000 p))"
  by (simp add: fetch_catch_def Error_def show_default_def with_default_def)

lemma fetchWithFeedback_refused:
  "fetchWithFeedback textOf refusing_endpoint endpoint options button successMessage p =
     (Inl (Error ''X''),
      setLoading textOf button False
        (snd (showNotification ''An unexpected error occurred. Please try again.'' ''error'' 5000
           (snd (showNotification ''X'' ''error'' 5000 (setLoading textOf button True p))))))"
  by (simp add: fetchWithFeedback_def fetch_refused fetch_catch_X)

lemma generic_no_X:
  "\<not> includes_str
       (serialised sample_browser
          (notification_html sample_browser ''An unexpected error occurred. Please try again.'' ''error''))
       ''X''"
  by (simp add: sample_browser_def notification_html_def getNotificationIcon_def nl_def)

text \<open>
  C6 fails on its first half. Against an endpoint that answers HTTP success with the
  envelope \<^verbatim>\<open>{success: false, error: "X"}\<close> the call does raise an error whose
  message is \<^verbatim>\<open>X\<close>, and it leaves the button enabled with its label back. But the
  error thrown inside \<^verbatim>\<open>try\<close> is caught by the function's own \<^verbatim>\<open>catch\<close>, whose
  test for the text \<^verbatim>\<open>Operation failed\<close> does not recognise it, so a second, generic
  notification is shown at once and replaces the one that carried \<^verbatim>\<open>X\<close>: the only
  notification in the document when the call settles does not contain \<^verbatim>\<open>X\<close>.
\<close>

theorem envelope_error_replaced:
  "fst (fetchWithFeedback textOf refusing_endpoint ''/api/save'' no_fetch_options (Some 0) [] page0) =
     Inl (Error ''X'')
   \<and> notifications (snd (fetchWithFeedback textOf refusing_endpoint ''/api/save'' no_fetch_options (Some 0) [] page0)) = [3]
   \<and> count_class (snd (fetchWithFeedback textOf refusing_endpoint ''/api/save'' no_fetch_options (Some 0) [] page0))
        ''notification'' = 1
   \<and> innerHTML (elements (snd (fetchWithFeedback textOf refusing_endpoint ''/api/save'' no_fetch_options (Some 0) [] page0)) 3) =
       serialised (browser page0)
         (notification_html (browser page0) ''An unexpected error occurred. Please try again.'' ''error'')
   \<and> \<not> includes_str
        (innerHTML (elements (snd (fetchWithFeedback textOf refusing_endpoint ''/api/save'' no_fetch_options (Some 0) [] page0)) 3))
        ''X''
   \<and> disabled (elements (snd (fetchWithFeedback textOf refusing_endpoint ''/api/save'' no_fetch_options (Some 0) [] page0)) 0) = False
   \<and> innerHTML (elements (snd (fetchWithFeedback textOf refusing_endpoint ''/api/save'' no_fetch_options (Some 0) [] page0)) 0) = ''Save''"
proof -
  let ?generic = "''An unexpected error occurred. Please try again.''"
  let ?q = "setLoading textOf (Some 0) True page0"
  let ?q1 = "snd (showNotification ''X'' ''error'' 5000 ?q)"
  let ?q2 = "snd (showNotification ?generic ''error'' 5000 ?q1)"
  let ?q3 = "setLoading textOf (Some 0) False ?q2"
  let ?r = "fetchWithFeedback textOf refusing_endpoint ''/api/save'' no_fetch_options (Some 0) [] page0"
  have run: "?r = (Inl (Error ''X''), ?q3)"
    by (rule fetchWithFeedback_refused)
  have b0: "browser page0 = sample_browser" by (simp add: page0_def)
  have e0: "elements ?q 0 =
      set_innerHTML sample_browser (spinner @ '' Processing...'')
        (createElement\<lparr>className := classList_add ''btn-loading'' ''btn btn-primary'',
           innerHTML := ''Save'', originalHTML := Some ''Save'',
           originalText := Some (textOf ''Save''), disabled := True\<rparr>)"
    by (simp add: setLoading_def setLoading_element_def page0_def createElement_def or_else_def
        truthy_def Let_def icon_marker_def set_innerHTML_def)
  have i0: "forest_count ''notification'' (inside (elements ?q 0)) = 0"
    unfolding e0 by (simp add: set_innerHTML_def sample_browser_def sample_attributes sample_tokens)
  have rq: "reachable ?q" using reachable_page0 i0 by (rule reachable.toggled)
  then have tq: "tidy ?q" by (rule reachable_tidy)
  have bq: "browser ?q = sample_browser" by (simp add: setLoading_browser b0)
  have kq: "nextRef ?q = 2" by (simp add: setLoading_def page0_def)
  have t1: "tidy ?q1" using tq by (rule showNotification_stays_tidy) (simp add: bq sample_plain)
  have b1: "browser ?q1 = sample_browser" unfolding showNotification_tidy(3) [OF tq] by (rule bq)
  have k1: "nextRef ?q1 = 3" unfolding showNotification_tidy(2) [OF tq] kq by simp
  have n2: "notifications ?q2 = [3]"
    unfolding showNotification_tidy(6) [OF t1] k1 ..
  have c2: "count_class ?q2 ''notification'' = 1"
    unfolding showNotification_tidy(5) [OF t1] b1 using sample_plain(4) by (simp add: plain_def)
  have h2: "innerHTML (elements ?q2 3) = serialised sample_browser (notification_html sample_browser ?generic ''error'')"
    using showNotification_tidy(4) [OF t1, where msg = ?generic and type = "''error''" and duration = 5000]
    unfolding k1 b1 by (simp add: set_innerHTML_def)
  have "elements ?q1 0 = elements ?q 0"
    using kq i0 by (intro showNotification_tidy(9) [OF tq]) simp_all
  moreover have "elements ?q2 0 = elements ?q1 0"
    using k1 i0 calculation by (intro showNotification_tidy(9) [OF t1]) simp_all
  ultimately have e2: "elements ?q2 0 = elements ?q 0" by simp
  have b2: "browser ?q2 = sample_browser" unfolding showNotification_tidy(3) [OF t1] by (rule b1)
  have a3: "attached ?q3 = attached ?q2" by (simp add: setLoading_def)
  have hc3: "has_class ?q3 ''notification'' r = has_class ?q2 ''notification'' r" for r
    by (simp add: setLoading_def has_class_def setLoading_element_class)
  have e3: "elements ?q3 0 =
      set_innerHTML sample_browser ''Save''
        ((elements ?q 0)\<lparr>disabled := False,
           className := classList_remove ''btn-loading'' (className (elements ?q 0))\<rparr>)"
  proof -
    have "elements ?q3 0 = setLoading_element textOf (browser ?q2) False (elements ?q2 0)"
      by (rule setLoading_elements)
    also have "\<dots> = setLoading_element textOf sample_browser False (elements ?q 0)"
      by (simp only: e2 b2)
    finally show ?thesis
      by (simp only: e0)
        (simp add: setLoading_element_def or_else_def truthy_def Let_def set_innerHTML_def
          createElement_def)
  qed
  have n3: "notifications ?q3 = [3]"
    unfolding n2 [symmetric] using a3 hc3 by (rule notifications_cong)
  have i3: "forest_count ''notification'' (inside (elements ?q3 0)) = 0"
    unfolding e3 by (simp add: set_innerHTML_def sample_browser_def sample_attributes)
  have "count_class ?q3 ''notification'' = count_class ?q2 ''notification''"
  proof -
    have "inside (elements ?q3 r) = inside (elements ?q2 r)" if "r \<noteq> 0" for r
      using that by (simp add: setLoading_def)
    moreover have "forest_count ''notification'' (inside (elements ?q2 0)) = 0"
      unfolding e2 by (rule i0)
    ultimately have "forest_count ''notification'' (inside (elements ?q3 r)) =
        forest_count ''notification'' (inside (elements ?q2 r))" for r
      using i3 by (cases "r = 0") simp_all
    then show ?thesis
      unfolding count_class_def a3 by (simp add: hc3)
  qed
  with c2 have c3: "count_class ?q3 ''notification'' = 1" by simp
  have h3: "innerHTML (elements ?q3 3) = serialised sample_browser (notification_html sample_browser ?generic ''error'')"
    using h2 by (simp add: setLoading_def)
  have s0: "innerHTML (elements ?q3 0) = ''Save''"
    unfolding e3 by (simp add: set_innerHTML_def sample_browser_def)
  have d0: "disabled (elements ?q3 0) = False"
    unfolding e3 by (simp add: set_innerHTML_def)
  show ?thesis
    unfolding run b0 using n3 c3 h3 s0 d0 generic_no_X by simp
qed

end
